theory Spec2Isabelle
  imports Complex_Main
begin

section \<open>JavaScript values used by the always-on-top render script\<close>

text \<open>
  The script \<^verbatim>\<open>alwaysontop/render.js\<close> stores the overlay position in the
  browser's local storage. Local storage holds strings, so a coordinate is turned into a
  string by \<^verbatim>\<open>setItem\<close> and parsed back with \<^verbatim>\<open>Number\<close>.

  A number is \<^verbatim>\<open>NaN\<close>, an infinity, or a finite decimal value. A finite value is
  kept exactly: \<open>Whole i\<close> is the integer \<open>i\<close>, and \<open>Frac m d\<close> is \<open>m / 10 ^ d\<close>
  with \<open>d > 0\<close> and \<open>m\<close> not divisible by ten. Rounding to an IEEE double and the
  sign of zero are not represented; on integers of magnitude at most \<open>2 ^ 53 - 1\<close> (all
  screen coordinates) the exact value and the double agree.
\<close>

datatype jsnum = NaN | PosInfinity | NegInfinity | Whole int | Frac int nat

datatype jsval = JUndefined | JNull | JBool bool | JNum jsnum | JStr string

fun js_typeof :: "jsval \<Rightarrow> string" where
  "js_typeof JUndefined = ''undefined''"
| "js_typeof JNull = ''object''"
| "js_typeof (JBool b) = ''boolean''"
| "js_typeof (JNum n) = ''number''"
| "js_typeof (JStr s) = ''string''"

fun isNaN :: "jsnum \<Rightarrow> bool" where
  "isNaN NaN = True"
| "isNaN PosInfinity = False"
| "isNaN NegInfinity = False"
| "isNaN (Whole i) = False"
| "isNaN (Frac m d) = False"

subsection \<open>Decimal digits\<close>

definition is_digit :: "char \<Rightarrow> bool" where
  "is_digit c \<longleftrightarrow> 48 \<le> (of_char c :: nat) \<and> (of_char c :: nat) \<le> 57"

definition digit_val :: "char \<Rightarrow> nat" where
  "digit_val c = of_char c - 48"

definition digit_char :: "nat \<Rightarrow> char" where
  "digit_char d = char_of (48 + d)"

fun nat_digits :: "nat \<Rightarrow> string" where
  "nat_digits n =
     (if n < 10 then [digit_char n] else nat_digits (n div 10) @ [digit_char (n mod 10)])"

declare nat_digits.simps [simp del]

definition digits_val :: "string \<Rightarrow> nat" where
  "digits_val ds = foldl (\<lambda>a c. 10 * a + digit_val c) 0 ds"

subsection \<open>\<^verbatim>\<open>String(number)\<close>: what \<^verbatim>\<open>localStorage.setItem\<close> stores for a number\<close>

text \<open>
  \<open>finite_to_string m d\<close> renders the positive value \<open>m / 10 ^ d\<close> the way
  ECMAScript's \<^verbatim>\<open>Number::toString\<close> does: with \<open>k\<close> significant digits and decimal
  exponent \<open>n\<close>, plain digits when \<open>k \<le> n \<le> 21\<close>, a decimal point inside the
  digits when \<open>0 < n \<le> 21\<close>, leading zeros when \<open>-6 < n \<le> 0\<close>, and exponent
  notation otherwise.
\<close>

definition strip_trailing_zeros :: "string \<Rightarrow> string" where
  "strip_trailing_zeros ds = rev (dropWhile (\<lambda>c. c = CHR ''0'') (rev ds))"

definition finite_to_string :: "nat \<Rightarrow> nat \<Rightarrow> string" where
  "finite_to_string m d =
     (let ds0 = nat_digits m;
          ds = strip_trailing_zeros ds0;
          k = int (length ds);
          n = int (length ds0) - int d;
          e = n - 1;
          es = (if e < 0 then ''-'' else ''+'') @ nat_digits (nat \<bar>e\<bar>)
      in if k \<le> n \<and> n \<le> 21 then ds @ replicate (nat (n - k)) (CHR ''0'')
         else if 0 < n \<and> n \<le> 21 then take (nat n) ds @ ''.'' @ drop (nat n) ds
         else if -6 < n \<and> n \<le> 0 then ''0.'' @ replicate (nat (- n)) (CHR ''0'') @ ds
         else if k = 1 then ds @ ''e'' @ es
         else [hd ds] @ ''.'' @ tl ds @ ''e'' @ es)"

fun number_to_string :: "jsnum \<Rightarrow> string" where
  "number_to_string NaN = ''NaN''"
| "number_to_string PosInfinity = ''Infinity''"
| "number_to_string NegInfinity = ''-Infinity''"
| "number_to_string (Whole i) =
     (if i = 0 then ''0''
      else (if i < 0 then ''-'' else '''') @ finite_to_string (nat \<bar>i\<bar>) 0)"
| "number_to_string (Frac m d) =
     (if m = 0 then ''0''
      else (if m < 0 then ''-'' else '''') @ finite_to_string (nat \<bar>m\<bar>) d)"

subsection \<open>\<^verbatim>\<open>Number(string)\<close>\<close>

text \<open>
  ECMAScript's \<^verbatim>\<open>StringToNumber\<close>: white space is trimmed at both ends, the empty
  rest is \<open>0\<close>, a \<^verbatim>\<open>0x\<close>, \<^verbatim>\<open>0o\<close> or \<^verbatim>\<open>0b\<close> prefix starts an unsigned
  integer literal in that radix, and everything else must be an optionally signed
  \<^verbatim>\<open>Infinity\<close> or decimal literal (digits, optional fraction, optional exponent).
  Any other string is \<^verbatim>\<open>NaN\<close>. Strings are byte strings here, so only the ASCII
  white space characters (tab, line feed, vertical tab, form feed, carriage return,
  space) are trimmed.
\<close>

definition is_ws :: "char \<Rightarrow> bool" where
  "is_ws c \<longleftrightarrow> (of_char c :: nat) \<in> {9, 10, 11, 12, 13, 32}"

definition str_trim :: "string \<Rightarrow> string" where
  "str_trim s = rev (dropWhile is_ws (rev (dropWhile is_ws s)))"

definition radix_digit_val :: "char \<Rightarrow> nat option" where
  "radix_digit_val c =
     (let v = (of_char c :: nat)
      in if 48 \<le> v \<and> v \<le> 57 then Some (v - 48)
         else if 97 \<le> v \<and> v \<le> 102 then Some (v - 87)
         else if 65 \<le> v \<and> v \<le> 70 then Some (v - 55)
         else None)"

definition radix_literal :: "nat \<Rightarrow> string \<Rightarrow> jsnum" where
  "radix_literal b ds =
     (if ds \<noteq> [] \<and> list_all (\<lambda>c. case radix_digit_val c of None \<Rightarrow> False | Some v \<Rightarrow> v < b) ds
      then Whole (int (foldl (\<lambda>a c. b * a + the (radix_digit_val c)) 0 ds))
      else NaN)"

primrec reduce_frac :: "int \<Rightarrow> nat \<Rightarrow> jsnum" where
  "reduce_frac m 0 = Whole m"
| "reduce_frac m (Suc d) = (if m mod 10 = 0 then reduce_frac (m div 10) d else Frac m (Suc d))"

definition decimal_value :: "nat \<Rightarrow> int \<Rightarrow> jsnum" where
  "decimal_value m e =
     (if 0 \<le> e then Whole (int m * 10 ^ nat e) else reduce_frac (int m) (nat (- e)))"

definition digits_opt :: "string \<Rightarrow> int option" where
  "digits_opt ds = (if ds \<noteq> [] \<and> list_all is_digit ds then Some (int (digits_val ds)) else None)"

definition signed_integer :: "string \<Rightarrow> int option" where
  "signed_integer t =
     (case t of
        [] \<Rightarrow> None
      | c # ds \<Rightarrow>
          if c = CHR ''-'' then map_option uminus (digits_opt ds)
          else if c = CHR ''+'' then digits_opt ds
          else digits_opt t)"

definition exponent_part :: "string \<Rightarrow> int option" where
  "exponent_part r =
     (case r of
        [] \<Rightarrow> Some 0
      | c # t \<Rightarrow> if c = CHR ''e'' \<or> c = CHR ''E'' then signed_integer t else None)"

definition unsigned_decimal :: "string \<Rightarrow> jsnum" where
  "unsigned_decimal s =
     (if s = ''Infinity'' then PosInfinity
      else
        let ip = takeWhile is_digit s;
            r1 = dropWhile is_digit s;
            dot = (case r1 of [] \<Rightarrow> False | c # _ \<Rightarrow> c = CHR ''.'');
            fp = (if dot then takeWhile is_digit (tl r1) else []);
            r2 = (if dot then dropWhile is_digit (tl r1) else r1)
        in if ip = [] \<and> fp = [] then NaN
           else case exponent_part r2 of
                  None \<Rightarrow> NaN
                | Some e \<Rightarrow> decimal_value (digits_val (ip @ fp)) (e - int (length fp)))"

fun negate :: "jsnum \<Rightarrow> jsnum" where
  "negate NaN = NaN"
| "negate PosInfinity = NegInfinity"
| "negate NegInfinity = PosInfinity"
| "negate (Whole i) = Whole (- i)"
| "negate (Frac m d) = Frac (- m) d"

definition str_decimal_literal :: "string \<Rightarrow> jsnum" where
  "str_decimal_literal s =
     (case s of
        [] \<Rightarrow> NaN
      | c # r \<Rightarrow>
          if c = CHR ''-'' then negate (unsigned_decimal r)
          else if c = CHR ''+'' then unsigned_decimal r
          else unsigned_decimal s)"

definition string_to_number :: "string \<Rightarrow> jsnum" where
  "string_to_number str =
     (let s = str_trim str
      in if s = [] then Whole 0
         else if take 2 s = ''0x'' \<or> take 2 s = ''0X'' then radix_literal 16 (drop 2 s)
         else if take 2 s = ''0o'' \<or> take 2 s = ''0O'' then radix_literal 8 (drop 2 s)
         else if take 2 s = ''0b'' \<or> take 2 s = ''0B'' then radix_literal 2 (drop 2 s)
         else str_decimal_literal s)"

section \<open>Event emitters\<close>

text \<open>
  The script registers bound methods of the one \<^verbatim>\<open>AlwaysOnTop\<close> instance as
  listeners, so a listener is identified by the method it is. An emitter keeps its
  listeners in registration order; \<^verbatim>\<open>on\<close> appends (the same listener may be
  registered several times) and \<^verbatim>\<open>removeListener\<close> removes at most one registration,
  the most recently added one.
\<close>

datatype handler =
    H_openAlwaysOnTopWindow
  | H_closeAlwaysOnTopWindow
  | H_onMessageReceived
  | H_updateLargeVideoSrc
  | H_onConferenceJoined
  | H_onConferenceLeft
  | H_onParticipantJoined
  | H_onParticipantLeft
  | H_onParticipantKickedOut
  | H_beforeunload

type_synonym listeners = "(string \<times> handler) list"

definition add_listener :: "string \<Rightarrow> handler \<Rightarrow> listeners \<Rightarrow> listeners" where
  "add_listener ev h ls = ls @ [(ev, h)]"

definition remove_listener :: "string \<Rightarrow> handler \<Rightarrow> listeners \<Rightarrow> listeners" where
  "remove_listener ev h ls = rev (remove1 (ev, h) (rev ls))"

definition listener_count :: "string \<Rightarrow> handler \<Rightarrow> listeners \<Rightarrow> nat" where
  "listener_count ev h ls = count_list ls (ev, h)"

section \<open>The overlay window and the render-process state\<close>

text \<open>
  The overlay is the window returned by \<^verbatim>\<open>window.open('', 'AlwaysOnTop')\<close>. Of its
  document the script uses the element with id \<^verbatim>\<open>react\<close>, the element with id
  \<^verbatim>\<open>video\<close> and one \<^verbatim>\<open>video_<id>\<close> element per participant, which it creates
  itself. \<open>participant_videos\<close> lists the latter by participant id, in document order.
\<close>

record source_video =
  srcObject :: "nat option"
  transform :: string

record video_element =
  ve_muted :: bool
  ve_autoplay :: bool
  ve_srcObject :: "nat option"
  ve_transform :: string
  ve_playing :: bool

record overlay_document =
  has_react :: bool
  main_video_display :: "string option"
  participant_videos :: "(string \<times> video_element) list"

record overlay_window =
  document :: "overlay_document option"

text \<open>
  Everything the script does to the outside is recorded, in order, in the \<open>effects\<close>:
  messages to the main process, local-storage writes, and calls on the overlay window
  and on its \<^verbatim>\<open>BrowserWindow\<close> handle.
\<close>

datatype effect =
    Ipc_send_position jsval jsval
  | Ipc_send_should_close
  | Ipc_send_video_count nat
  | Storage_setItem string string
  | Window_open string string
  | Window_close
  | BrowserWindow_getPosition nat
  | BrowserWindow_setBounds nat int int int int
  | Emit_ALWAYSONTOP_DISMISSED
  | Emit_ALWAYSONTOP_WILL_CLOSE

text \<open>
  What a handler can throw: a \<^verbatim>\<open>TypeError\<close> on a property of \<^verbatim>\<open>undefined\<close> or
  \<^verbatim>\<open>null\<close>, the constructor's \<^verbatim>\<open>Error('Wrong arguments!')\<close>, and the error of
  a call on the handle of a destroyed browser window. A handler that throws gives
  \<open>Inl\<close> of the error; the changes it made before it threw are not kept in the result.
\<close>

datatype error = TypeError | WrongArguments | ObjectDestroyed

text \<open>
  The state of the one \<^verbatim>\<open>AlwaysOnTop\<close> instance and of what it talks to. The
  handlers that receive the browser window from the main process
  (\<^verbatim>\<open>_onMessageReceived\<close>, \<^verbatim>\<open>_onNewAlwaysOnTopBrowserWindow\<close>) and that install
  the overlay's callbacks (\<^verbatim>\<open>_setupAlwaysOnTopWindow\<close>) are not part of this
  development: a state with a handle is written down directly.

  \<open>alwaysOnTopWindow\<close> and \<open>alwaysOnTopBrowserWindow\<close> are the two fields of the
  instance (\<open>None\<close> is \<^verbatim>\<open>undefined\<close>); the handle is the id of a \<^verbatim>\<open>BrowserWindow\<close>
  of the main process. \<open>browser_windows\<close> is the main process's side: the live browser
  windows by id, each with its screen position; an id that is not there is a destroyed
  window. The listener lists are those of the primary window
  (\<^verbatim>\<open>_jitsiMeetElectronWindow\<close>), of the Jitsi Meet API object, of
  \<^verbatim>\<open>ipcRenderer\<close> and of the page's own \<^verbatim>\<open>window\<close>; \<open>observing\<close> says whether
  the intersection observer observes the iframe.
\<close>

record aot_state =
  alwaysOnTopWindow :: "overlay_window option"
  alwaysOnTopBrowserWindow :: "nat option"
  localStorage :: "string \<rightharpoonup> string"
  window_listeners :: listeners
  api_listeners :: listeners
  ipc_listeners :: listeners
  dom_window_listeners :: listeners
  observing :: bool
  browser_windows :: "nat \<rightharpoonup> int \<times> int"
  effects :: "effect list"

definition bind_result :: "error + 'a \<Rightarrow> ('a \<Rightarrow> error + 'b) \<Rightarrow> error + 'b" where
  "bind_result r f = (case r of Inl e \<Rightarrow> Inl e | Inr a \<Rightarrow> f a)"

definition emit :: "effect \<Rightarrow> aot_state \<Rightarrow> aot_state" where
  "emit e s = s\<lparr>effects := effects s @ [e]\<rparr>"

subsection \<open>The position store\<close>

definition getNumberFromLocalStorage :: "(string \<rightharpoonup> string) \<Rightarrow> string \<Rightarrow> jsval" where
  "getNumberFromLocalStorage storage localStorageKey =
     (case storage localStorageKey of
        None \<Rightarrow> JUndefined
      | Some localStorageValue \<Rightarrow>
          if localStorageValue = [] then JUndefined
          else let v = string_to_number localStorageValue
               in if isNaN v then JUndefined else JNum v)"

fun js_to_string :: "jsval \<Rightarrow> string" where
  "js_to_string JUndefined = ''undefined''"
| "js_to_string JNull = ''null''"
| "js_to_string (JBool b) = (if b then ''true'' else ''false'')"
| "js_to_string (JNum n) = number_to_string n"
| "js_to_string (JStr s) = s"

definition setItem :: "string \<Rightarrow> jsval \<Rightarrow> aot_state \<Rightarrow> aot_state" where
  "setItem k v s =
     emit (Storage_setItem k (js_to_string v))
       (s\<lparr>localStorage := (localStorage s)(k \<mapsto> js_to_string v)\<rparr>)"

definition sendPosition :: "jsval \<times> jsval \<Rightarrow> aot_state \<Rightarrow> aot_state" where
  "sendPosition p s = emit (Ipc_send_position (fst p) (snd p)) s"

definition get_position :: "aot_state \<Rightarrow> jsval \<times> jsval" where
  "get_position s =
     (getNumberFromLocalStorage (localStorage s) ''jitsi-always-on-top-x'',
      getNumberFromLocalStorage (localStorage s) ''jitsi-always-on-top-y'')"

definition set_position :: "jsval \<times> jsval \<Rightarrow> aot_state \<Rightarrow> aot_state" where
  "set_position p s =
     (if js_typeof (fst p) = ''number'' \<and> js_typeof (snd p) = ''number''
      then sendPosition p
             (setItem ''jitsi-always-on-top-y'' (snd p)
               (setItem ''jitsi-always-on-top-x'' (fst p) s))
      else s)"

text \<open>\<^verbatim>\<open>_sendResetSize\<close> returns before it sends anything.\<close>

definition sendResetSize :: "aot_state \<Rightarrow> aot_state" where
  "sendResetSize s = s"

subsection \<open>Calls on the \<^verbatim>\<open>BrowserWindow\<close> handle\<close>

text \<open>
  A method called on the handle of a destroyed window throws; only
  \<^verbatim>\<open>isDestroyed\<close> may be asked of a dead handle.
\<close>

definition isDestroyed :: "nat \<Rightarrow> aot_state \<Rightarrow> bool" where
  "isDestroyed h s \<longleftrightarrow> browser_windows s h = None"

definition getPosition :: "nat \<Rightarrow> aot_state \<Rightarrow> error + (int \<times> int) \<times> aot_state" where
  "getPosition h s =
     (case browser_windows s h of
        None \<Rightarrow> Inl ObjectDestroyed
      | Some pos \<Rightarrow> Inr (pos, emit (BrowserWindow_getPosition h) s))"

definition setBounds :: "nat \<Rightarrow> int \<Rightarrow> int \<Rightarrow> int \<Rightarrow> int \<Rightarrow> aot_state \<Rightarrow> error + aot_state" where
  "setBounds h x y w ht s =
     (case browser_windows s h of
        None \<Rightarrow> Inl ObjectDestroyed
      | Some pos \<Rightarrow>
          Inr (emit (BrowserWindow_setBounds h x y w ht)
                 (s\<lparr>browser_windows := (browser_windows s)(h \<mapsto> (x, y))\<rparr>)))"

subsection \<open>Opening and closing the overlay\<close>

text \<open>
  \<open>opened\<close> is what \<^verbatim>\<open>window.open\<close> returns when it is called: the new window, or
  \<open>None\<close> for \<^verbatim>\<open>null\<close>. A \<^verbatim>\<open>close()\<close> on the overlay window is recorded as
  an effect; the browser window is destroyed by the main process later, when the
  instance has dropped both references.
\<close>

definition openAlwaysOnTopWindow :: "overlay_window option \<Rightarrow> aot_state \<Rightarrow> aot_state" where
  "openAlwaysOnTopWindow opened s =
     (case alwaysOnTopWindow s of
        Some w \<Rightarrow> s
      | None \<Rightarrow>
          (emit (Window_open [] ''AlwaysOnTop'')
             (s\<lparr>ipc_listeners :=
                  add_listener ''jitsi-always-on-top'' H_onMessageReceived (ipc_listeners s),
                api_listeners :=
                  add_listener ''largeVideoChanged'' H_updateLargeVideoSrc (api_listeners s)\<rparr>))
          \<lparr>alwaysOnTopWindow := opened\<rparr>)"

definition closeAlwaysOnTopWindow :: "aot_state \<Rightarrow> error + aot_state" where
  "closeAlwaysOnTopWindow s =
     bind_result
       (case alwaysOnTopBrowserWindow s of
          None \<Rightarrow> Inr s
        | Some h \<Rightarrow>
            if \<not> isDestroyed h s
            then bind_result (getPosition h s)
                   (\<lambda>(position, s'). Inr (set_position (JNum (Whole (fst position)),
                                                            JNum (Whole (snd position))) s'))
            else Inr s)
       (\<lambda>s1.
          let s2 =
            (case alwaysOnTopWindow s1 of
               None \<Rightarrow> s1
             | Some w \<Rightarrow>
                 (case alwaysOnTopBrowserWindow s1 of
                    None \<Rightarrow> s1
                  | Some h \<Rightarrow> if \<not> isDestroyed h s1 then emit Window_close s1 else s1)
                 \<lparr>ipc_listeners :=
                    remove_listener ''jitsi-always-on-top'' H_onMessageReceived (ipc_listeners s1)\<rparr>)
          in Inr ((emit Ipc_send_should_close s2)
                    \<lparr>alwaysOnTopBrowserWindow := None, alwaysOnTopWindow := None\<rparr>))"

subsection \<open>Conference events\<close>

definition onConferenceJoined :: "aot_state \<Rightarrow> aot_state" where
  "onConferenceJoined s =
     s\<lparr>window_listeners :=
         add_listener ''close'' H_closeAlwaysOnTopWindow
           (add_listener ''focus'' H_closeAlwaysOnTopWindow
             (add_listener ''blur'' H_openAlwaysOnTopWindow (window_listeners s))),
       observing := True\<rparr>"

definition onConferenceLeft :: "aot_state \<Rightarrow> error + aot_state" where
  "onConferenceLeft s =
     closeAlwaysOnTopWindow
       (sendResetSize
         (s\<lparr>observing := False,
            window_listeners :=
              remove_listener ''close'' H_closeAlwaysOnTopWindow
                (remove_listener ''focus'' H_closeAlwaysOnTopWindow
                  (remove_listener ''blur'' H_openAlwaysOnTopWindow (window_listeners s)))\<rparr>))"


subsection \<open>Construction\<close>

definition initial_state :: "(string \<rightharpoonup> string) \<Rightarrow> (nat \<rightharpoonup> int \<times> int) \<Rightarrow> aot_state" where
  "initial_state storage wins =
     \<lparr>alwaysOnTopWindow = None, alwaysOnTopBrowserWindow = None, localStorage = storage,
      window_listeners = [], api_listeners = [], ipc_listeners = [],
      dom_window_listeners = [], observing = False, browser_windows = wins, effects = []\<rparr>"

text \<open>\<open>api\<close> says whether the constructor was given an API object.\<close>

definition new_AlwaysOnTop :: "bool \<Rightarrow> (string \<rightharpoonup> string) \<Rightarrow> (nat \<rightharpoonup> int \<times> int) \<Rightarrow> error + aot_state" where
  "new_AlwaysOnTop api storage wins =
     (if \<not> api then Inl WrongArguments
      else
        let s = (initial_state storage wins)
                  \<lparr>api_listeners :=
                     [(''videoConferenceJoined'', H_onConferenceJoined),
                      (''videoConferenceLeft'', H_onConferenceLeft),
                      (''_willDispose'', H_onConferenceLeft),
                      (''participantJoined'', H_onParticipantJoined),
                      (''participantLeft'', H_onParticipantLeft),
                      (''participantKickedOut'', H_onParticipantKickedOut)],
                   dom_window_listeners := [(''beforeunload'', H_beforeunload)]\<rparr>
        in Inr (sendPosition (get_position s) s))"

definition beforeunload :: "aot_state \<Rightarrow> error + aot_state" where
  "beforeunload s =
     bind_result (onConferenceLeft s)
       (\<lambda>s1. Inr (s1\<lparr>api_listeners :=
                       remove_listener ''videoConferenceLeft'' H_onConferenceLeft
                         (remove_listener ''videoConferenceJoined'' H_onConferenceJoined
                           (api_listeners s1))\<rparr>))"

subsection \<open>Callbacks handed to the overlay\<close>

text \<open>
  \<^verbatim>\<open>_setupAlwaysOnTopWindow\<close> hands the overlay an object of callbacks. \<open>move\<close> is
  the one the overlay calls on every frame of a drag, \<open>onbeforeunload\<close> the one it
  calls when it unloads, \<open>dismiss\<close> the one behind its close button.
\<close>

definition move :: "int \<Rightarrow> int \<Rightarrow> int \<times> int \<Rightarrow> aot_state \<Rightarrow> error + aot_state" where
  "move x y initialSize s =
     (case alwaysOnTopBrowserWindow s of
        None \<Rightarrow> Inr s
      | Some h \<Rightarrow> setBounds h x y (fst initialSize) (snd initialSize) s)"

definition onbeforeunload :: "aot_state \<Rightarrow> aot_state" where
  "onbeforeunload s =
     (emit Emit_ALWAYSONTOP_WILL_CLOSE s)
       \<lparr>api_listeners :=
          remove_listener ''largeVideoChanged'' H_updateLargeVideoSrc (api_listeners s)\<rparr>"

definition dismiss :: "aot_state \<Rightarrow> error + aot_state" where
  "dismiss s = closeAlwaysOnTopWindow (emit Emit_ALWAYSONTOP_DISMISSED s)"

subsection \<open>Routing participant videos into the overlay\<close>

text \<open>
  What \<^verbatim>\<open>_onParticipantJoined\<close> asks of the Jitsi Meet API: the participant ids, in
  the order \<^verbatim>\<open>Object.keys\<close> lists them, and for an id the participant's video
  element in the main window, if there is one.
\<close>

record api_view =
  participants :: "string list"
  getParticipantVideo :: "string \<Rightarrow> source_video option"

definition overlay_document_of :: "aot_state \<Rightarrow> overlay_document option" where
  "overlay_document_of s =
     (case alwaysOnTopWindow s of None \<Rightarrow> None | Some w \<Rightarrow> document w)"

definition set_document :: "overlay_document \<Rightarrow> aot_state \<Rightarrow> aot_state" where
  "set_document d s =
     (case alwaysOnTopWindow s of
        None \<Rightarrow> s
      | Some w \<Rightarrow> s\<lparr>alwaysOnTopWindow := Some (w\<lparr>document := Some d\<rparr>)\<rparr>)"

definition getAlwaysOnTopWindowParticipantVideo :: "string \<Rightarrow> aot_state \<Rightarrow> video_element option" where
  "getAlwaysOnTopWindowParticipantVideo participantId s =
     (case overlay_document_of s of
        None \<Rightarrow> None
      | Some d \<Rightarrow> map_of (participant_videos d) participantId)"

definition nextVideo :: video_element where
  "nextVideo = \<lparr>ve_muted = True, ve_autoplay = True, ve_srcObject = None,
                ve_transform = [], ve_playing = False\<rparr>"

text \<open>
  The result is the id under which the participant's overlay element is found
  afterwards, or \<open>None\<close> for \<^verbatim>\<open>undefined\<close>. A new element goes right after the
  \<^verbatim>\<open>react\<close> element, so in front of the ones inserted before; without a
  \<^verbatim>\<open>react\<close> element the insertion throws.
\<close>

definition getOrInsertAlwaysOnTopWindowParticipantVideo ::
    "string \<Rightarrow> aot_state \<Rightarrow> error + string option \<times> aot_state" where
  "getOrInsertAlwaysOnTopWindowParticipantVideo participantId s =
     (case overlay_document_of s of
        None \<Rightarrow> Inr (None, s)
      | Some d \<Rightarrow>
          (case getAlwaysOnTopWindowParticipantVideo participantId s of
             Some video \<Rightarrow> Inr (Some participantId, s)
           | None \<Rightarrow>
               if has_react d
               then Inr (Some participantId,
                         set_document
                           (d\<lparr>participant_videos :=
                                (participantId, nextVideo) # participant_videos d\<rparr>) s)
               else Inl TypeError))"

text \<open>
  \<^verbatim>\<open>this._alwaysOnTopWindowVideo.style.display = 'block'\<close>: the getter gives
  \<^verbatim>\<open>undefined\<close> without an overlay document and \<^verbatim>\<open>null\<close> without an element
  with id \<^verbatim>\<open>video\<close>, and the assignment throws on both.
\<close>

definition show_alwaysOnTopWindowVideo :: "aot_state \<Rightarrow> error + aot_state" where
  "show_alwaysOnTopWindowVideo s =
     (case overlay_document_of s of
        None \<Rightarrow> Inl TypeError
      | Some d \<Rightarrow>
          (case main_video_display d of
             None \<Rightarrow> Inl TypeError
           | Some disp \<Rightarrow> Inr (set_document (d\<lparr>main_video_display := Some ''block''\<rparr>) s)))"

fun update_video ::
    "string \<Rightarrow> (video_element \<Rightarrow> video_element) \<Rightarrow> (string \<times> video_element) list
      \<Rightarrow> (string \<times> video_element) list" where
  "update_video k f [] = []"
| "update_video k f (kv # r) =
     (if fst kv = k then (k, f (snd kv)) # r else kv # update_video k f r)"

text \<open>
  The three statements on the overlay element: the stream of the participant's video is
  attached, its transform is copied, and \<^verbatim>\<open>play()\<close> is called.
\<close>

definition play_source :: "source_video \<Rightarrow> video_element \<Rightarrow> video_element" where
  "play_source video videoElement =
     videoElement\<lparr>ve_srcObject := srcObject video, ve_transform := transform video,
                  ve_playing := True\<rparr>"

definition attach_video :: "string \<Rightarrow> source_video \<Rightarrow> aot_state \<Rightarrow> aot_state" where
  "attach_video ref video s =
     (case overlay_document_of s of
        None \<Rightarrow> s
      | Some d \<Rightarrow>
          set_document
            (d\<lparr>participant_videos :=
                 update_video ref (play_source video) (participant_videos d)\<rparr>) s)"

text \<open>
  The body of the \<^verbatim>\<open>forEach\<close> callback, for one participant id, on the running
  \<open>videoCount\<close> and the state. The count message is sent at the end of the callback,
  for every participant.
\<close>

definition participant_step :: "api_view \<Rightarrow> string \<Rightarrow> nat \<times> aot_state \<Rightarrow> error + nat \<times> aot_state" where
  "participant_step api participantsId cs =
     bind_result
       (case getParticipantVideo api participantsId of
          None \<Rightarrow> Inr cs
        | Some video \<Rightarrow>
            bind_result (getOrInsertAlwaysOnTopWindowParticipantVideo participantsId (snd cs))
              (\<lambda>(videoElement, s1).
                 bind_result (show_alwaysOnTopWindowVideo s1)
                   (\<lambda>s2. case videoElement of
                            None \<Rightarrow> Inl TypeError
                          | Some ref \<Rightarrow> Inr (fst cs + 1, attach_video ref video s2))))
       (\<lambda>(videoCount, s'). Inr (videoCount, emit (Ipc_send_video_count videoCount) s'))"

fun forEach :: "('a \<Rightarrow> 'b \<Rightarrow> error + 'b) \<Rightarrow> 'a list \<Rightarrow> 'b \<Rightarrow> error + 'b" where
  "forEach f [] acc = Inr acc"
| "forEach f (x # xs) acc = bind_result (f x acc) (forEach f xs)"

definition onParticipantJoined :: "api_view \<Rightarrow> aot_state \<Rightarrow> error + aot_state" where
  "onParticipantJoined api s =
     bind_result (forEach (participant_step api) (participants api) (0, s))
       (\<lambda>cs. Inr (snd cs))"

section \<open>Observations on states and effects\<close>

text \<open>
  The handle the instance holds together with the position of its browser window, when
  that window is still alive.
\<close>

definition live_handle :: "aot_state \<Rightarrow> (nat \<times> int \<times> int) option" where
  "live_handle s =
     (case alwaysOnTopBrowserWindow s of
        None \<Rightarrow> None
      | Some h \<Rightarrow> (case browser_windows s h of None \<Rightarrow> None | Some pos \<Rightarrow> Some (h, pos)))"

text \<open>
  The two ways in which the script asks for the overlay's browser window to go away:
  \<^verbatim>\<open>close()\<close> on the overlay window, and the
  \<^verbatim>\<open>jitsi-always-on-top-should-close\<close> message, which tells the main process to
  close the browser window.
\<close>

fun is_destroy_request :: "effect \<Rightarrow> bool" where
  "is_destroy_request Window_close = True"
| "is_destroy_request Ipc_send_should_close = True"
| "is_destroy_request e = False"

fun is_position_message :: "effect \<Rightarrow> bool" where
  "is_position_message (Ipc_send_position x y) = True"
| "is_position_message e = False"

definition position_messages :: "effect list \<Rightarrow> effect list" where
  "position_messages es = filter is_position_message es"

text \<open>\<^verbatim>\<open>_onConferenceLeft\<close> called \<open>n\<close> times in a row.\<close>

fun onConferenceLeft_times :: "nat \<Rightarrow> aot_state \<Rightarrow> error + aot_state" where
  "onConferenceLeft_times 0 s = Inr s"
| "onConferenceLeft_times (Suc n) s = bind_result (onConferenceLeft s) (onConferenceLeft_times n)"


subsection \<open>What a routing pass comes to\<close>

text \<open>
  The effect of one \<^verbatim>\<open>forEach\<close> callback on the overlay document, for a
  participant with a video: the element with id \<^verbatim>\<open>video\<close> is shown, the
  participant's element is created if it is not there, and the source is attached to
  it. \<open>route_document\<close> is the whole pass; participants without a video leave the
  document alone.
\<close>

definition bind_document :: "string \<Rightarrow> source_video \<Rightarrow> overlay_document \<Rightarrow> overlay_document" where
  "bind_document p video d =
     d\<lparr>main_video_display := Some ''block'',
       participant_videos :=
         update_video p (play_source video)
           (case map_of (participant_videos d) p of
              None \<Rightarrow> (p, nextVideo) # participant_videos d
            | Some v \<Rightarrow> participant_videos d)\<rparr>"

fun route_document :: "api_view \<Rightarrow> string list \<Rightarrow> overlay_document \<Rightarrow> overlay_document" where
  "route_document api [] d = d"
| "route_document api (p # ps) d =
     route_document api ps
       (case getParticipantVideo api p of None \<Rightarrow> d | Some video \<Rightarrow> bind_document p video d)"

text \<open>
  The count messages of a pass that starts with \<open>videoCount = c\<close>: one message per
  participant, with the number of participants bound so far.
\<close>

fun count_messages :: "api_view \<Rightarrow> string list \<Rightarrow> nat \<Rightarrow> effect list" where
  "count_messages api [] c = []"
| "count_messages api (p # ps) c =
     (case getParticipantVideo api p of
        None \<Rightarrow> Ipc_send_video_count c # count_messages api ps c
      | Some video \<Rightarrow> Ipc_send_video_count (c + 1) # count_messages api ps (c + 1))"

definition has_video :: "api_view \<Rightarrow> string \<Rightarrow> bool" where
  "has_video api p \<longleftrightarrow> getParticipantVideo api p \<noteq> None"

section \<open>Example states\<close>

definition stored_120_340 :: "string \<rightharpoonup> string" where
  "stored_120_340 =
     [''jitsi-always-on-top-x'' \<mapsto> ''120'', ''jitsi-always-on-top-y'' \<mapsto> ''340'']"

text \<open>The fields as they are before the constructor runs, over empty storage.\<close>

definition fresh_state :: aot_state where
  "fresh_state = initial_state Map.empty Map.empty"

text \<open>The state a constructor call leaves over empty storage.\<close>

definition constructed_state :: aot_state where
  "constructed_state =
     fresh_state
       \<lparr>api_listeners :=
          [(''videoConferenceJoined'', H_onConferenceJoined),
           (''videoConferenceLeft'', H_onConferenceLeft),
           (''_willDispose'', H_onConferenceLeft),
           (''participantJoined'', H_onParticipantJoined),
           (''participantLeft'', H_onParticipantLeft),
           (''participantKickedOut'', H_onParticipantKickedOut)],
        dom_window_listeners := [(''beforeunload'', H_beforeunload)],
        effects := [Ipc_send_position JUndefined JUndefined]\<rparr>"

text \<open>A conference is joined on a freshly constructed instance.\<close>

definition joined_state :: aot_state where
  "joined_state = onConferenceJoined constructed_state"

text \<open>
  Then the primary window loses focus and \<^verbatim>\<open>window.open\<close> returns the overlay
  window. The main process has not yet announced the browser window.
\<close>

definition joined_and_blurred :: aot_state where
  "joined_and_blurred = openAlwaysOnTopWindow (Some \<lparr>document = None\<rparr>) joined_state"

text \<open>An open overlay whose browser window 7 sits at \<open>(120, 340)\<close>.\<close>

definition overlay_at_120_340 :: aot_state where
  "overlay_at_120_340 =
     (initial_state Map.empty [7 \<mapsto> (120, 340)])
       \<lparr>alwaysOnTopWindow := Some \<lparr>document = None\<rparr>, alwaysOnTopBrowserWindow := Some 7\<rparr>"

text \<open>
  An open overlay whose browser window 7 has been destroyed behind the script's back,
  with a position stored earlier.
\<close>

definition overlay_destroyed :: aot_state where
  "overlay_destroyed =
     (initial_state stored_120_340 Map.empty)
       \<lparr>alwaysOnTopWindow := Some \<lparr>document = None\<rparr>, alwaysOnTopBrowserWindow := Some 7,
        ipc_listeners := [(''jitsi-always-on-top'', H_onMessageReceived)]\<rparr>"

text \<open>
  An open overlay whose document has the \<^verbatim>\<open>react\<close> and \<^verbatim>\<open>video\<close> elements and
  no participant video yet, and two views of the conference: participant \<open>A\<close> alone,
  and \<open>A\<close> and \<open>B\<close>, each with a video.
\<close>

definition ready_document :: overlay_document where
  "ready_document =
     \<lparr>has_react = True, main_video_display = Some ''none'', participant_videos = []\<rparr>"

definition overlay_ready :: aot_state where
  "overlay_ready =
     (initial_state Map.empty [7 \<mapsto> (120, 340)])
       \<lparr>alwaysOnTopWindow := Some \<lparr>document = Some ready_document\<rparr>,
        alwaysOnTopBrowserWindow := Some 7\<rparr>"

definition video_of :: "string \<Rightarrow> source_video option" where
  "video_of p =
     (if p = ''A'' then Some \<lparr>srcObject = Some 1, transform = ''scaleX(-1)''\<rparr>
      else if p = ''B'' then Some \<lparr>srcObject = Some 2, transform = ''none''\<rparr>
      else None)"

definition api_A :: api_view where
  "api_A = \<lparr>participants = [''A''], getParticipantVideo = video_of\<rparr>"

definition api_A_B :: api_view where
  "api_A_B = \<lparr>participants = [''A'', ''B''], getParticipantVideo = video_of\<rparr>"

section \<open>Facts about numbers and strings\<close>







lemma length_nat_digits: "0 < k \<Longrightarrow> n < 10 ^ k \<Longrightarrow> length (nat_digits n) \<le> k"
proof (induction n arbitrary: k rule: nat_digits.induct)
  case (1 n)
  show ?case
  proof (cases "n < 10")
    case True
    with 1(2) show ?thesis by (subst nat_digits.simps) simp
  next
    case False
    from 1(2) obtain j where kj: "k = Suc j" by (cases k) auto
    from False 1(3) kj have "0 < j" by (cases j) auto
    with kj have j: "k = Suc j" "0 < j" by simp_all
    from 1(3) j have "n div 10 < 10 ^ j" by (simp add: less_mult_imp_div_less mult.commute)
    with 1(1) [OF False j(2)] have "length (nat_digits (n div 10)) \<le> j" by simp
    with False j show ?thesis by (subst nat_digits.simps) simp
  qed
qed

text \<open>Stripping the trailing zeros and padding them back gives the digits again.\<close>

lemma strip_pad:
  "rev (dropWhile (\<lambda>x. x = c) (rev xs))
     @ replicate (length xs - length (dropWhile (\<lambda>x. x = c) (rev xs))) c = xs"
proof -
  let ?P = "\<lambda>x. x = c"
  let ?ys = "rev xs"
  have tw: "takeWhile ?P ?ys = replicate (length (takeWhile ?P ?ys)) c"
    by (rule replicate_length_same [symmetric]) (auto dest: set_takeWhileD)
  have "length (takeWhile ?P ?ys) + length (dropWhile ?P ?ys) = length ?ys"
    by (metis length_append takeWhile_dropWhile_id)
  then have len: "length (takeWhile ?P ?ys) = length xs - length (dropWhile ?P ?ys)"
    by simp
  have "rev (takeWhile ?P ?ys) = replicate (length xs - length (dropWhile ?P ?ys)) c"
    using tw len by (metis rev_replicate)
  moreover have "xs = rev (dropWhile ?P ?ys) @ rev (takeWhile ?P ?ys)"
    by (metis rev_append rev_rev_ident takeWhile_dropWhile_id)
  ultimately show ?thesis by simp
qed

text \<open>An integer below \<open>10 ^ 21\<close> is printed as its plain decimal digits.\<close>

lemma finite_to_string_whole:
  assumes "m < 10 ^ 21"
  shows "finite_to_string m 0 = nat_digits m"
proof -
  let ?all = "nat_digits m"
  let ?sig = "strip_trailing_zeros ?all"
  have n21: "length ?all \<le> 21"
    using length_nat_digits [of 21 m] assms by simp
  have kn: "length ?sig \<le> length ?all"
    unfolding strip_trailing_zeros_def
    using length_dropWhile_le [of "\<lambda>c. c = CHR ''0''" "rev ?all"] by simp
  have pad: "?sig @ replicate (length ?all - length ?sig) (CHR ''0'') = ?all"
    unfolding strip_trailing_zeros_def using strip_pad [of "CHR ''0''" ?all] by simp
  have a: "int (length ?sig) \<le> int (length ?all) - int 0 \<and> int (length ?all) - int 0 \<le> 21"
    using n21 kn by simp
  have b: "nat (int (length ?all) - int 0 - int (length ?sig)) = length ?all - length ?sig"
    by simp
  show ?thesis
    unfolding finite_to_string_def Let_def by (simp only: a b pad if_True simp_thms)
qed

lemma not_ws_digit: "is_digit c \<Longrightarrow> \<not> is_ws c"
  by (auto simp: is_digit_def is_ws_def)


lemma str_trim_id:
  assumes "s \<noteq> []" "\<not> is_ws (hd s)" "\<not> is_ws (last s)"
  shows "str_trim s = s"
proof -
  from assms have 1: "dropWhile is_ws s = s" by (cases s) auto
  from assms have "rev s \<noteq> []" "\<not> is_ws (hd (rev s))" by (simp_all add: hd_rev)
  then have 2: "dropWhile is_ws (rev s) = rev s" by (cases "rev s") auto
  from 1 2 show ?thesis by (simp add: str_trim_def)
qed

lemma unsigned_decimal_digits:
  assumes "ds \<noteq> []" "list_all is_digit ds"
  shows "unsigned_decimal ds = Whole (int (digits_val ds))"
proof -
  from assms have inf: "ds \<noteq> ''Infinity''" by (auto simp: is_digit_def)
  from assms(2) have tw: "takeWhile is_digit ds = ds" "dropWhile is_digit ds = []"
    by (simp_all add: list_all_iff)
  from inf assms(1) show ?thesis
    by (simp add: unsigned_decimal_def exponent_part_def decimal_value_def Let_def tw)
qed

text \<open>A string of decimal digits, with or without a minus sign, parses to its value.\<close>

lemma string_to_number_digits:
  assumes "ds \<noteq> []" "list_all is_digit ds"
  shows "string_to_number ds = Whole (int (digits_val ds))"
    and "string_to_number (CHR ''-'' # ds) = Whole (- int (digits_val ds))"
proof -
  from assms have hd: "is_digit (hd ds)" and lst: "is_digit (last ds)"
    by (cases ds, auto simp: list_all_iff)+
  from assms have t1: "str_trim ds = ds"
    by (intro str_trim_id) (auto simp: hd lst not_ws_digit)
  have t2: "str_trim (CHR ''-'' # ds) = CHR ''-'' # ds"
    using assms lst not_ws_digit [of "last ds"] by (intro str_trim_id) (simp_all add: is_ws_def)
  have nx: "take 2 ds \<noteq> ''0x'' \<and> take 2 ds \<noteq> ''0X'' \<and> take 2 ds \<noteq> ''0o''
        \<and> take 2 ds \<noteq> ''0O'' \<and> take 2 ds \<noteq> ''0b'' \<and> take 2 ds \<noteq> ''0B''"
  proof (cases ds)
    case Nil with assms show ?thesis by simp
  next
    case (Cons a r)
    show ?thesis
    proof (cases r)
      case Nil with Cons show ?thesis by simp
    next
      case (Cons b r')
      with \<open>ds = a # r\<close> assms(2) have "is_digit b" by simp
      then have "b \<noteq> CHR ''x'' \<and> b \<noteq> CHR ''X'' \<and> b \<noteq> CHR ''o'' \<and> b \<noteq> CHR ''O''
          \<and> b \<noteq> CHR ''b'' \<and> b \<noteq> CHR ''B''"
        by (auto simp: is_digit_def)
      with Cons \<open>ds = a # r\<close> show ?thesis by simp
    qed
  qed
  from hd have sg: "hd ds \<noteq> CHR ''-''" "hd ds \<noteq> CHR ''+''" by (auto simp: is_digit_def)
  from assms(1) sg have dl: "str_decimal_literal ds = unsigned_decimal ds"
    by (cases ds) (simp_all add: str_decimal_literal_def)
  from assms t1 nx dl show "string_to_number ds = Whole (int (digits_val ds))"
    by (simp add: string_to_number_def Let_def unsigned_decimal_digits)
  from assms t2 show "string_to_number (CHR ''-'' # ds) = Whole (- int (digits_val ds))"
    by (simp add: string_to_number_def Let_def str_decimal_literal_def unsigned_decimal_digits)
qed




section \<open>The position store\<close>

lemma string_to_number_120: "string_to_number ''120'' = Whole 120"
  using string_to_number_digits(1) [of "''120''"]
  by (simp add: is_digit_def digits_val_def digit_val_def)

lemma string_to_number_340: "string_to_number ''340'' = Whole 340"
  using string_to_number_digits(1) [of "''340''"]
  by (simp add: is_digit_def digits_val_def digit_val_def)

lemma finite_to_string_120: "finite_to_string 120 0 = ''120''"
  by (simp add: finite_to_string_whole) code_simp

lemma finite_to_string_340: "finite_to_string 340 0 = ''340''"
  by (simp add: finite_to_string_whole) code_simp

lemma number_to_string_120: "number_to_string (Whole 120) = ''120''"
  by (simp add: finite_to_string_120)

lemma number_to_string_340: "number_to_string (Whole 340) = ''340''"
  by (simp add: finite_to_string_340)

lemma get_position_stored_120_340:
  "localStorage s = stored_120_340 \<Longrightarrow> get_position s = (JNum (Whole 120), JNum (Whole 340))"
  by (simp add: get_position_def getNumberFromLocalStorage_def stored_120_340_def
      string_to_number_120 string_to_number_340)

lemma effects_set_position:
  "effects (set_position (x, y) s) =
     effects s @
       (if js_typeof x = ''number'' \<and> js_typeof y = ''number''
        then [Storage_setItem ''jitsi-always-on-top-x'' (js_to_string x),
              Storage_setItem ''jitsi-always-on-top-y'' (js_to_string y),
              Ipc_send_position x y]
        else [])"
  by (simp add: set_position_def sendPosition_def setItem_def emit_def)


text \<open>
  Claim C10. The position setter is a guarded write: when one of the two coordinates is
  not of type \<^verbatim>\<open>number\<close>, the setter changes nothing. Both storage keys keep their
  values and no message is sent.
\<close>

theorem set_position_guarded:
  "\<not> (js_typeof x = ''number'' \<and> js_typeof y = ''number'')
   \<Longrightarrow> set_position (x, y) s = s
       \<and> localStorage (set_position (x, y) s) = localStorage s
       \<and> effects (set_position (x, y) s) = effects s"
  by (auto simp: set_position_def)

theorem set_position_guarded_witness:
  "js_typeof JUndefined \<noteq> ''number''
   \<and> set_position (JUndefined, JNum (Whole 7)) (initial_state stored_120_340 Map.empty)
       = initial_state stored_120_340 Map.empty
   \<and> get_position (set_position (JUndefined, JNum (Whole 7))
                     (initial_state stored_120_340 Map.empty))
       = (JNum (Whole 120), JNum (Whole 340))"
proof -
  have g: "get_position (initial_state stored_120_340 Map.empty)
             = (JNum (Whole 120), JNum (Whole 340))"
    by (rule get_position_stored_120_340) (simp add: initial_state_def)
  have h: "\<not> (js_typeof JUndefined = ''number'' \<and> js_typeof (JNum (Whole 7)) = ''number'')"
    by simp
  from set_position_guarded [OF h, of "initial_state stored_120_340 Map.empty"] g
  show ?thesis by simp
qed



text \<open>
  Closing an overlay whose browser window is alive at \<open>(120, 340)\<close> stores and sends
  that position, and an instance constructed over the storage left behind reports
  \<open>(120, 340)\<close> to the main process.
\<close>

lemma close_stores_120_340:
  "closeAlwaysOnTopWindow overlay_at_120_340 =
     Inr ((initial_state stored_120_340 [7 \<mapsto> (120, 340)])
            \<lparr>effects :=
               [BrowserWindow_getPosition 7,
                Storage_setItem ''jitsi-always-on-top-x'' ''120'',
                Storage_setItem ''jitsi-always-on-top-y'' ''340'',
                Ipc_send_position (JNum (Whole 120)) (JNum (Whole 340)),
                Window_close, Ipc_send_should_close]\<rparr>)"
  by (simp add: closeAlwaysOnTopWindow_def overlay_at_120_340_def initial_state_def
      bind_result_def isDestroyed_def getPosition_def emit_def set_position_def
      sendPosition_def setItem_def remove_listener_def stored_120_340_def
      finite_to_string_120 finite_to_string_340)

lemma new_AlwaysOnTop_reports_stored_position:
  "new_AlwaysOnTop True stored_120_340 wins =
     Inr ((initial_state stored_120_340 wins)
            \<lparr>api_listeners :=
               [(''videoConferenceJoined'', H_onConferenceJoined),
                (''videoConferenceLeft'', H_onConferenceLeft),
                (''_willDispose'', H_onConferenceLeft),
                (''participantJoined'', H_onParticipantJoined),
                (''participantLeft'', H_onParticipantLeft),
                (''participantKickedOut'', H_onParticipantKickedOut)],
             dom_window_listeners := [(''beforeunload'', H_beforeunload)],
             effects := [Ipc_send_position (JNum (Whole 120)) (JNum (Whole 340))]\<rparr>)"
proof -
  have "get_position ((initial_state stored_120_340 wins)\<lparr>api_listeners := a, dom_window_listeners := d\<rparr>)
          = (JNum (Whole 120), JNum (Whole 340))" for a d
    by (rule get_position_stored_120_340) (simp add: initial_state_def)
  then show ?thesis
    by (simp add: new_AlwaysOnTop_def Let_def sendPosition_def emit_def initial_state_def)
qed




section \<open>Opening and closing the overlay\<close>

lemma new_AlwaysOnTop_empty: "new_AlwaysOnTop True Map.empty Map.empty = Inr constructed_state"
  by (simp add: new_AlwaysOnTop_def constructed_state_def fresh_state_def initial_state_def
      Let_def sendPosition_def emit_def get_position_def getNumberFromLocalStorage_def)

text \<open>
  What a close does, in one equation. It never throws: the position is read and
  \<^verbatim>\<open>close()\<close> is called only behind the liveness check.
\<close>

lemma closeAlwaysOnTopWindow_result:
  "closeAlwaysOnTopWindow s =
     Inr (s\<lparr>alwaysOnTopWindow := None,
            alwaysOnTopBrowserWindow := None,
            localStorage :=
              (case live_handle s of
                 None \<Rightarrow> localStorage s
               | Some (h, x, y) \<Rightarrow>
                   (localStorage s)
                     (''jitsi-always-on-top-x'' \<mapsto> number_to_string (Whole x),
                      ''jitsi-always-on-top-y'' \<mapsto> number_to_string (Whole y))),
            ipc_listeners :=
              (case alwaysOnTopWindow s of
                 None \<Rightarrow> ipc_listeners s
               | Some w \<Rightarrow>
                   remove_listener ''jitsi-always-on-top'' H_onMessageReceived (ipc_listeners s)),
            effects :=
              effects s
              @ (case live_handle s of
                   None \<Rightarrow> []
                 | Some (h, x, y) \<Rightarrow>
                     [BrowserWindow_getPosition h,
                      Storage_setItem ''jitsi-always-on-top-x'' (number_to_string (Whole x)),
                      Storage_setItem ''jitsi-always-on-top-y'' (number_to_string (Whole y)),
                      Ipc_send_position (JNum (Whole x)) (JNum (Whole y))])
              @ (if alwaysOnTopWindow s \<noteq> None \<and> live_handle s \<noteq> None
                 then [Window_close] else [])
              @ [Ipc_send_should_close]\<rparr>)"
proof (cases "alwaysOnTopBrowserWindow s")
  case None
  then show ?thesis
    by (cases s; cases "alwaysOnTopWindow s")
       (simp_all add: closeAlwaysOnTopWindow_def bind_result_def emit_def live_handle_def)
next
  case (Some h)
  show ?thesis
  proof (cases "browser_windows s h")
    case None
    with Some show ?thesis
      by (cases s; cases "alwaysOnTopWindow s")
         (simp_all add: closeAlwaysOnTopWindow_def bind_result_def emit_def live_handle_def
           isDestroyed_def)
  next
    case (Some pos)
    obtain x y where pos: "pos = (x, y)" by (cases pos)
    from Some \<open>alwaysOnTopBrowserWindow s = Some h\<close> pos show ?thesis
      by (cases s; cases "alwaysOnTopWindow s")
         (simp_all add: closeAlwaysOnTopWindow_def bind_result_def emit_def live_handle_def
           isDestroyed_def getPosition_def set_position_def sendPosition_def setItem_def)
  qed
qed

lemma live_handle_None_iff:
  "live_handle s = None \<longleftrightarrow>
     (case alwaysOnTopBrowserWindow s of None \<Rightarrow> True | Some h \<Rightarrow> isDestroyed h s)"
  by (simp add: live_handle_def isDestroyed_def split: option.splits)

text \<open>
  Claim C1, amended. With no overlay (both references unset) a close writes nothing to
  storage, sends no position message, calls nothing on a window or a handle and changes
  no listener; both references stay unset. It is not a no-op, though: as every close
  does, it sends the should-close message, which asks the main process to close the
  overlay's browser window.
\<close>

theorem close_without_overlay:
  "alwaysOnTopWindow s = None \<Longrightarrow> alwaysOnTopBrowserWindow s = None
   \<Longrightarrow> closeAlwaysOnTopWindow s = Inr (s\<lparr>effects := effects s @ [Ipc_send_should_close]\<rparr>)"
  by (cases s) (simp add: closeAlwaysOnTopWindow_def bind_result_def emit_def)

theorem close_without_overlay_witness:
  "alwaysOnTopWindow constructed_state = None
   \<and> alwaysOnTopBrowserWindow constructed_state = None
   \<and> closeAlwaysOnTopWindow constructed_state
       = Inr (constructed_state
               \<lparr>effects := [Ipc_send_position JUndefined JUndefined, Ipc_send_should_close]\<rparr>)"
proof -
  have h: "alwaysOnTopWindow constructed_state = None"
      "alwaysOnTopBrowserWindow constructed_state = None"
    by (simp_all add: constructed_state_def fresh_state_def initial_state_def)
  have e: "effects constructed_state = [Ipc_send_position JUndefined JUndefined]"
    by (simp add: constructed_state_def)
  from close_without_overlay [OF h] h e show ?thesis by simp
qed

text \<open>
  The claim as stated fails on a freshly constructed instance: the close is not a
  no-op, and what it issues is a request to destroy the browser window.
\<close>

theorem close_without_overlay_counterexample:
  "closeAlwaysOnTopWindow constructed_state
     = Inr (constructed_state
             \<lparr>effects := [Ipc_send_position JUndefined JUndefined, Ipc_send_should_close]\<rparr>)
   \<and> closeAlwaysOnTopWindow constructed_state \<noteq> Inr constructed_state
   \<and> is_destroy_request Ipc_send_should_close"
  by (simp add: closeAlwaysOnTopWindow_def bind_result_def emit_def constructed_state_def
      fresh_state_def initial_state_def)

text \<open>
  Claim C2. Two opens in direct succession, starting without an overlay and with
  \<^verbatim>\<open>window.open\<close> returning a window to the first: the second open changes
  nothing, so there is exactly one \<^verbatim>\<open>window.open\<close> call and each of the two
  listeners is registered once. (\<open>r\<close> is what \<^verbatim>\<open>window.open\<close> would return to the
  second open; it is never asked.)
\<close>

theorem open_twice:
  "alwaysOnTopWindow s = None
   \<Longrightarrow> openAlwaysOnTopWindow r (openAlwaysOnTopWindow (Some w) s)
         = openAlwaysOnTopWindow (Some w) s
     \<and> effects (openAlwaysOnTopWindow r (openAlwaysOnTopWindow (Some w) s))
         = effects s @ [Window_open [] ''AlwaysOnTop'']
     \<and> ipc_listeners (openAlwaysOnTopWindow r (openAlwaysOnTopWindow (Some w) s))
         = ipc_listeners s @ [(''jitsi-always-on-top'', H_onMessageReceived)]
     \<and> api_listeners (openAlwaysOnTopWindow r (openAlwaysOnTopWindow (Some w) s))
         = api_listeners s @ [(''largeVideoChanged'', H_updateLargeVideoSrc)]"
  by (simp add: openAlwaysOnTopWindow_def emit_def add_listener_def)

theorem open_twice_witness:
  "alwaysOnTopWindow fresh_state = None
   \<and> openAlwaysOnTopWindow (Some \<lparr>document = None\<rparr>)
         (openAlwaysOnTopWindow (Some \<lparr>document = None\<rparr>) fresh_state)
       = openAlwaysOnTopWindow (Some \<lparr>document = None\<rparr>) fresh_state
   \<and> effects (openAlwaysOnTopWindow (Some \<lparr>document = None\<rparr>)
                (openAlwaysOnTopWindow (Some \<lparr>document = None\<rparr>) fresh_state))
       = [Window_open [] ''AlwaysOnTop'']
   \<and> ipc_listeners (openAlwaysOnTopWindow (Some \<lparr>document = None\<rparr>)
                      (openAlwaysOnTopWindow (Some \<lparr>document = None\<rparr>) fresh_state))
       = [(''jitsi-always-on-top'', H_onMessageReceived)]"
proof -
  have h: "alwaysOnTopWindow fresh_state = None"
    by (simp add: fresh_state_def initial_state_def)
  have e: "effects fresh_state = []" "ipc_listeners fresh_state = []"
    by (simp_all add: fresh_state_def initial_state_def)
  note t = open_twice [OF h, of "Some \<lparr>document = None\<rparr>" "\<lparr>document = None\<rparr>"]
  from t h show ?thesis unfolding e append_Nil by blast
qed

text \<open>
  Claim C3, amended. A close never throws and always ends with both references cleared.
  The handle is dereferenced only after \<^verbatim>\<open>isDestroyed\<close> has answered no. With a
  dead handle the close does what it does with no handle at all: the position is not
  read (reading it would throw), storage is not written, \<^verbatim>\<open>close()\<close> is not called
  on the overlay window. What is still sent, as on every close, is the should-close
  message to the main process.
\<close>

theorem close_stale_handle:
  "\<exists>s'. closeAlwaysOnTopWindow s = Inr s'
        \<and> alwaysOnTopWindow s' = None \<and> alwaysOnTopBrowserWindow s' = None
        \<and> (\<forall>h. alwaysOnTopBrowserWindow s = Some h \<and> isDestroyed h s \<longrightarrow>
              getPosition h s = Inl ObjectDestroyed
              \<and> closeAlwaysOnTopWindow s
                  = closeAlwaysOnTopWindow (s\<lparr>alwaysOnTopBrowserWindow := None\<rparr>)
              \<and> localStorage s' = localStorage s
              \<and> effects s' = effects s @ [Ipc_send_should_close])"
proof -
  have dead: "live_handle s = None" "getPosition h s = Inl ObjectDestroyed"
      "live_handle (s\<lparr>alwaysOnTopBrowserWindow := None\<rparr>) = None"
    if "alwaysOnTopBrowserWindow s = Some h" "isDestroyed h s" for h
    using that by (simp_all add: live_handle_def isDestroyed_def getPosition_def)
  show ?thesis
    by (subst closeAlwaysOnTopWindow_result, rule exI, rule conjI, rule refl)
       (auto simp: dead closeAlwaysOnTopWindow_result split: option.splits)
qed

theorem close_stale_handle_witness:
  "alwaysOnTopBrowserWindow overlay_destroyed = Some 7
   \<and> isDestroyed 7 overlay_destroyed
   \<and> closeAlwaysOnTopWindow overlay_destroyed
       = Inr ((initial_state stored_120_340 Map.empty)\<lparr>effects := [Ipc_send_should_close]\<rparr>)"
proof -
  have h: "alwaysOnTopBrowserWindow overlay_destroyed = Some 7"
      "isDestroyed 7 overlay_destroyed"
    by (simp_all add: overlay_destroyed_def initial_state_def isDestroyed_def)
  from close_stale_handle [of overlay_destroyed] h
  have "closeAlwaysOnTopWindow overlay_destroyed
          = closeAlwaysOnTopWindow (overlay_destroyed\<lparr>alwaysOnTopBrowserWindow := None\<rparr>)"
    by blast
  also have "\<dots> = Inr ((initial_state stored_120_340 Map.empty)
                           \<lparr>effects := [Ipc_send_should_close]\<rparr>)"
    by (simp add: closeAlwaysOnTopWindow_def bind_result_def emit_def overlay_destroyed_def
        initial_state_def remove_listener_def)
  finally show ?thesis using h by simp
qed

text \<open>
  The claim as stated fails where the browser window of an open overlay has been
  destroyed: the close still issues a destroy request, the should-close message.
\<close>

theorem close_stale_handle_counterexample:
  "alwaysOnTopBrowserWindow overlay_destroyed = Some 7
   \<and> isDestroyed 7 overlay_destroyed
   \<and> closeAlwaysOnTopWindow overlay_destroyed
       = Inr ((initial_state stored_120_340 Map.empty)\<lparr>effects := [Ipc_send_should_close]\<rparr>)
   \<and> is_destroy_request Ipc_send_should_close"
  by (simp add: closeAlwaysOnTopWindow_def bind_result_def emit_def overlay_destroyed_def
      initial_state_def remove_listener_def isDestroyed_def)

section \<open>Listeners\<close>

lemma count_list_remove1:
  "count_list (remove1 y xs) x = (if x = y then count_list xs x - 1 else count_list xs x)"
  by (induction xs) auto

lemma listener_count_remove:
  "listener_count ev h (remove_listener ev' h' ls) =
     (if (ev, h) = (ev', h') then listener_count ev h ls - 1 else listener_count ev h ls)"
  by (simp add: listener_count_def remove_listener_def count_list_remove1)

lemma listener_count_add:
  "listener_count ev h (add_listener ev' h' ls) =
     listener_count ev h ls + (if (ev, h) = (ev', h') then 1 else 0)"
  by (simp add: listener_count_def add_listener_def)

lemma remove_listener_absent: "listener_count ev h ls = 0 \<Longrightarrow> remove_listener ev h ls = ls"
  by (simp add: listener_count_def remove_listener_def count_list_0_iff remove1_idem)

section \<open>Leaving the conference\<close>

lemma onConferenceLeft_result:
  "onConferenceLeft s =
     Inr (s\<lparr>observing := False,
            window_listeners :=
              remove_listener ''close'' H_closeAlwaysOnTopWindow
                (remove_listener ''focus'' H_closeAlwaysOnTopWindow
                  (remove_listener ''blur'' H_openAlwaysOnTopWindow (window_listeners s))),
            alwaysOnTopWindow := None,
            alwaysOnTopBrowserWindow := None,
            localStorage :=
              (case live_handle s of
                 None \<Rightarrow> localStorage s
               | Some (h, x, y) \<Rightarrow>
                   (localStorage s)
                     (''jitsi-always-on-top-x'' \<mapsto> number_to_string (Whole x),
                      ''jitsi-always-on-top-y'' \<mapsto> number_to_string (Whole y))),
            ipc_listeners :=
              (case alwaysOnTopWindow s of
                 None \<Rightarrow> ipc_listeners s
               | Some w \<Rightarrow>
                   remove_listener ''jitsi-always-on-top'' H_onMessageReceived (ipc_listeners s)),
            effects :=
              effects s
              @ (case live_handle s of
                   None \<Rightarrow> []
                 | Some (h, x, y) \<Rightarrow>
                     [BrowserWindow_getPosition h,
                      Storage_setItem ''jitsi-always-on-top-x'' (number_to_string (Whole x)),
                      Storage_setItem ''jitsi-always-on-top-y'' (number_to_string (Whole y)),
                      Ipc_send_position (JNum (Whole x)) (JNum (Whole y))])
              @ (if alwaysOnTopWindow s \<noteq> None \<and> live_handle s \<noteq> None
                 then [Window_close] else [])
              @ [Ipc_send_should_close]\<rparr>)"
proof -
  have lh: "live_handle (s\<lparr>observing := b, window_listeners := l\<rparr>) = live_handle s" for b l
    by (simp add: live_handle_def split: option.splits)
  show ?thesis
    unfolding onConferenceLeft_def sendResetSize_def
    by (subst closeAlwaysOnTopWindow_result) (simp add: lh cong: option.case_cong)
qed

text \<open>Once everything is detached and closed, a further call only sends the message.\<close>

lemma onConferenceLeft_again:
  assumes "listener_count ''blur'' H_openAlwaysOnTopWindow (window_listeners t) = 0"
    and "listener_count ''focus'' H_closeAlwaysOnTopWindow (window_listeners t) = 0"
    and "listener_count ''close'' H_closeAlwaysOnTopWindow (window_listeners t) = 0"
    and "\<not> observing t" and "alwaysOnTopWindow t = None"
    and "alwaysOnTopBrowserWindow t = None"
  shows "onConferenceLeft t = Inr (t\<lparr>effects := effects t @ [Ipc_send_should_close]\<rparr>)"
proof -
  from assms(6) have lh: "live_handle t = None" by (simp add: live_handle_def)
  from assms(1-3) have wl:
    "remove_listener ''close'' H_closeAlwaysOnTopWindow
       (remove_listener ''focus'' H_closeAlwaysOnTopWindow
         (remove_listener ''blur'' H_openAlwaysOnTopWindow (window_listeners t)))
     = window_listeners t"
    by (simp add: remove_listener_absent)
  have "onConferenceLeft t =
      Inr (t\<lparr>observing := False, window_listeners := window_listeners t,
             alwaysOnTopWindow := None, alwaysOnTopBrowserWindow := None,
             localStorage := localStorage t, ipc_listeners := ipc_listeners t,
             effects := effects t @ [Ipc_send_should_close]\<rparr>)"
    by (subst onConferenceLeft_result) (simp add: lh wl assms(5))
  also from assms(4-6) have "\<dots> = Inr (t\<lparr>effects := effects t @ [Ipc_send_should_close]\<rparr>)"
    by (cases t) simp
  finally show ?thesis .
qed

lemma onConferenceLeft_times_again:
  assumes "listener_count ''blur'' H_openAlwaysOnTopWindow (window_listeners t) = 0"
    and "listener_count ''focus'' H_closeAlwaysOnTopWindow (window_listeners t) = 0"
    and "listener_count ''close'' H_closeAlwaysOnTopWindow (window_listeners t) = 0"
    and "\<not> observing t" and "alwaysOnTopWindow t = None"
    and "alwaysOnTopBrowserWindow t = None"
  shows "onConferenceLeft_times n t =
           Inr (t\<lparr>effects := effects t @ replicate n Ipc_send_should_close\<rparr>)"
  using assms
proof (induction n arbitrary: t)
  case 0
  then show ?case by simp
next
  case (Suc n)
  let ?t = "t\<lparr>effects := effects t @ [Ipc_send_should_close]\<rparr>"
  from Suc.prems have 1: "onConferenceLeft t = Inr ?t" by (rule onConferenceLeft_again)
  from Suc.prems have "onConferenceLeft_times n ?t =
      Inr (?t\<lparr>effects := effects ?t @ replicate n Ipc_send_should_close\<rparr>)"
    by (intro Suc.IH) simp_all
  with 1 show ?case
    by (simp add: bind_result_def replicate_app_Cons_same)
qed

lemma onConferenceLeft_fields:
  assumes "onConferenceLeft s = Inr s1"
  shows "window_listeners s1 =
           remove_listener ''close'' H_closeAlwaysOnTopWindow
             (remove_listener ''focus'' H_closeAlwaysOnTopWindow
               (remove_listener ''blur'' H_openAlwaysOnTopWindow (window_listeners s)))"
    and "\<not> observing s1"
    and "alwaysOnTopWindow s1 = None"
    and "alwaysOnTopBrowserWindow s1 = None"
    and "api_listeners s1 = api_listeners s"
    and "dom_window_listeners s1 = dom_window_listeners s"
    and "browser_windows s1 = browser_windows s"
  using assms unfolding onConferenceLeft_result by auto

text \<open>
  The overlay's \<^verbatim>\<open>onbeforeunload\<close> callback is what takes one registration of the
  \<^verbatim>\<open>largeVideoChanged\<close> listener off the API object.
\<close>

lemma onbeforeunload_removes_listener:
  "listener_count ''largeVideoChanged'' H_updateLargeVideoSrc (api_listeners (onbeforeunload s))
     = listener_count ''largeVideoChanged'' H_updateLargeVideoSrc (api_listeners s) - 1"
  by (simp add: onbeforeunload_def emit_def listener_count_remove)

text \<open>
  Claim C4, amended. \<^verbatim>\<open>_onConferenceLeft\<close> never throws, with or without a
  conference joined before. From a state in which each of the three listeners of
  \<^verbatim>\<open>_onConferenceJoined\<close> is registered at most once, after one or more calls in a
  row none of them is left on the primary window, the observer is stopped and both
  overlay references are cleared; a further call changes nothing of that, it only sends
  one more should-close message. The listeners of the API object are left as they are:
  the \<^verbatim>\<open>largeVideoChanged\<close> listener that an open registered is not removed by
  \<^verbatim>\<open>_onConferenceLeft\<close> (the overlay's \<^verbatim>\<open>onbeforeunload\<close> callback removes it).
\<close>

theorem onConferenceLeft_detaches:
  assumes "listener_count ''blur'' H_openAlwaysOnTopWindow (window_listeners s) \<le> 1"
    and "listener_count ''focus'' H_closeAlwaysOnTopWindow (window_listeners s) \<le> 1"
    and "listener_count ''close'' H_closeAlwaysOnTopWindow (window_listeners s) \<le> 1"
    and "0 < n"
  shows "\<exists>s1 sn.
           onConferenceLeft s = Inr s1
           \<and> onConferenceLeft_times n s = Inr sn
           \<and> sn = s1\<lparr>effects := effects s1 @ replicate (n - 1) Ipc_send_should_close\<rparr>
           \<and> listener_count ''blur'' H_openAlwaysOnTopWindow (window_listeners sn) = 0
           \<and> listener_count ''focus'' H_closeAlwaysOnTopWindow (window_listeners sn) = 0
           \<and> listener_count ''close'' H_closeAlwaysOnTopWindow (window_listeners sn) = 0
           \<and> \<not> observing sn
           \<and> alwaysOnTopWindow sn = None \<and> alwaysOnTopBrowserWindow sn = None
           \<and> api_listeners sn = api_listeners s
           \<and> onConferenceLeft sn = Inr (sn\<lparr>effects := effects sn @ [Ipc_send_should_close]\<rparr>)"
proof -
  obtain s1 where s1: "onConferenceLeft s = Inr s1"
    by (simp add: onConferenceLeft_result)
  note f = onConferenceLeft_fields [OF s1]
  from assms(1-3) have c:
    "listener_count ''blur'' H_openAlwaysOnTopWindow (window_listeners s1) = 0"
    "listener_count ''focus'' H_closeAlwaysOnTopWindow (window_listeners s1) = 0"
    "listener_count ''close'' H_closeAlwaysOnTopWindow (window_listeners s1) = 0"
    by (simp_all add: f(1) listener_count_remove)
  from assms(4) obtain m where n: "n = Suc m" by (cases n) auto
  define sn where "sn = s1\<lparr>effects := effects s1 @ replicate m Ipc_send_should_close\<rparr>"
  have times: "onConferenceLeft_times n s = Inr sn"
    using s1 onConferenceLeft_times_again [OF c f(2,3,4), of m]
    by (simp add: n bind_result_def sn_def)
  have again: "onConferenceLeft sn = Inr (sn\<lparr>effects := effects sn @ [Ipc_send_should_close]\<rparr>)"
    by (rule onConferenceLeft_again) (simp_all add: sn_def c f(2-4))
  from s1 times again c f(2-5) n show ?thesis
    by (intro exI [of _ s1] exI [of _ sn]) (simp add: sn_def)
qed

theorem onConferenceLeft_detaches_witness:
  "listener_count ''blur'' H_openAlwaysOnTopWindow (window_listeners joined_and_blurred) \<le> 1
   \<and> listener_count ''focus'' H_closeAlwaysOnTopWindow (window_listeners joined_and_blurred) \<le> 1
   \<and> listener_count ''close'' H_closeAlwaysOnTopWindow (window_listeners joined_and_blurred) \<le> 1
   \<and> (0::nat) < 2
   \<and> (\<exists>sn. onConferenceLeft_times 2 joined_and_blurred = Inr sn
          \<and> window_listeners sn = []
          \<and> \<not> observing sn
          \<and> alwaysOnTopWindow sn = None
          \<and> onConferenceLeft sn = Inr (sn\<lparr>effects := effects sn @ [Ipc_send_should_close]\<rparr>))"
proof -
  have wl: "window_listeners joined_and_blurred =
      [(''blur'', H_openAlwaysOnTopWindow), (''focus'', H_closeAlwaysOnTopWindow),
       (''close'', H_closeAlwaysOnTopWindow)]"
    by (simp add: joined_and_blurred_def joined_state_def openAlwaysOnTopWindow_def onConferenceJoined_def
        constructed_state_def fresh_state_def initial_state_def emit_def add_listener_def)
  have h: "listener_count ''blur'' H_openAlwaysOnTopWindow (window_listeners joined_and_blurred) \<le> 1"
      "listener_count ''focus'' H_closeAlwaysOnTopWindow (window_listeners joined_and_blurred) \<le> 1"
      "listener_count ''close'' H_closeAlwaysOnTopWindow (window_listeners joined_and_blurred) \<le> 1"
      "(0::nat) < 2"
    by (simp_all add: wl listener_count_def)
  from onConferenceLeft_detaches [OF h]
  obtain s1 sn where r: "onConferenceLeft joined_and_blurred = Inr s1"
      "onConferenceLeft_times 2 joined_and_blurred = Inr sn"
      "sn = s1\<lparr>effects := effects s1 @ replicate (2 - 1) Ipc_send_should_close\<rparr>"
      "\<not> observing sn" "alwaysOnTopWindow sn = None"
      "onConferenceLeft sn = Inr (sn\<lparr>effects := effects sn @ [Ipc_send_should_close]\<rparr>)"
    by blast
  from r(1) have "window_listeners s1 = []"
    by (simp add: onConferenceLeft_result wl remove_listener_def) auto
  with r(3) have "window_listeners sn = []" by simp
  with r h show ?thesis by blast
qed

text \<open>
  The claim as stated fails on an ordinary run: a conference is joined, the primary
  window loses focus and the overlay is opened, then the conference is left. The
  \<^verbatim>\<open>largeVideoChanged\<close> listener that the open registered is still on the API
  object afterwards, next to the six the constructor registered.
\<close>

theorem onConferenceLeft_detaches_counterexample:
  "onConferenceLeft joined_and_blurred =
     Inr (constructed_state
           \<lparr>api_listeners :=
              api_listeners constructed_state @ [(''largeVideoChanged'', H_updateLargeVideoSrc)],
            effects :=
              [Ipc_send_position JUndefined JUndefined, Window_open [] ''AlwaysOnTop'',
               Ipc_send_should_close]\<rparr>)
   \<and> listener_count ''largeVideoChanged'' H_updateLargeVideoSrc
         (api_listeners constructed_state) = 0
   \<and> listener_count ''largeVideoChanged'' H_updateLargeVideoSrc
         (api_listeners constructed_state @ [(''largeVideoChanged'', H_updateLargeVideoSrc)]) = 1"
  by (simp add: onConferenceLeft_def sendResetSize_def closeAlwaysOnTopWindow_def
      bind_result_def emit_def joined_and_blurred_def joined_state_def openAlwaysOnTopWindow_def
      onConferenceJoined_def constructed_state_def fresh_state_def initial_state_def
      add_listener_def remove_listener_def listener_count_def)

section \<open>Visibility signals\<close>






section \<open>Routing participant videos\<close>

lemma map_of_update_video:
  "map_of (update_video k f xs) k' =
     (if k' = k then map_option f (map_of xs k) else map_of xs k')"
  by (induction xs) auto

lemma keys_update_video: "map fst (update_video k f xs) = map fst xs"
  by (induction xs) auto

lemma overlay_document_of_set_document:
  "overlay_document_of s = Some d \<Longrightarrow> overlay_document_of (set_document d' s) = Some d'"
  by (auto simp: overlay_document_of_def set_document_def split: option.splits)

lemma set_document_twice: "set_document d2 (set_document d1 s) = set_document d2 s"
  by (auto simp: set_document_def split: option.splits)

lemma set_document_same:
  "overlay_document_of s = Some d \<Longrightarrow> set_document d s = s"
  by (cases s) (auto simp: overlay_document_of_def set_document_def split: option.splits)

lemma overlay_document_of_emit: "overlay_document_of (emit e s) = overlay_document_of s"
  by (simp add: overlay_document_of_def emit_def)

lemma set_document_emit: "set_document d (emit e s) = emit e (set_document d s)"
  by (auto simp: set_document_def emit_def split: option.splits)

lemma set_document_effects:
  "set_document d (s\<lparr>effects := es\<rparr>) = (set_document d s)\<lparr>effects := es\<rparr>"
  by (auto simp: set_document_def split: option.splits)

lemma effects_set_document: "effects (set_document d s) = effects s"
  by (auto simp: set_document_def split: option.splits)

text \<open>
  One callback, in a state whose overlay document has the \<^verbatim>\<open>react\<close> and the
  \<^verbatim>\<open>video\<close> element: it does not throw.
\<close>

lemma participant_step_ready:
  assumes "overlay_document_of s = Some d" "has_react d" "main_video_display d \<noteq> None"
  shows "participant_step api p (c, s) =
     (case getParticipantVideo api p of
        None \<Rightarrow> Inr (c, emit (Ipc_send_video_count c) s)
      | Some video \<Rightarrow>
          Inr (c + 1, emit (Ipc_send_video_count (c + 1))
                        (set_document (bind_document p video d) s)))"
proof (cases "getParticipantVideo api p")
  case None
  then show ?thesis by (simp add: participant_step_def bind_result_def)
next
  case (Some video)
  from assms(3) obtain disp where disp: "main_video_display d = Some disp" by auto
  show ?thesis
  proof (cases "map_of (participant_videos d) p")
    case None
    let ?d1 = "d\<lparr>participant_videos := (p, nextVideo) # participant_videos d\<rparr>"
    let ?s1 = "set_document ?d1 s"
    from None assms(1,2) have g:
      "getOrInsertAlwaysOnTopWindowParticipantVideo p s = Inr (Some p, ?s1)"
      by (simp add: getOrInsertAlwaysOnTopWindowParticipantVideo_def
          getAlwaysOnTopWindowParticipantVideo_def)
    have o1: "overlay_document_of ?s1 = Some ?d1"
      using assms(1) by (rule overlay_document_of_set_document)
    let ?d2 = "?d1\<lparr>main_video_display := Some ''block''\<rparr>"
    let ?s2 = "set_document ?d2 s"
    from o1 disp have sh: "show_alwaysOnTopWindowVideo ?s1 = Inr ?s2"
      by (simp add: show_alwaysOnTopWindowVideo_def set_document_twice)
    have o2: "overlay_document_of ?s2 = Some ?d2"
      using assms(1) by (rule overlay_document_of_set_document)
    have at: "attach_video p video ?s2 = set_document (bind_document p video d) s"
      using o2 None by (simp add: attach_video_def set_document_twice bind_document_def)
    from Some g sh at show ?thesis
      by (simp add: participant_step_def bind_result_def)
  next
    case (Some v)
    from Some assms(1) have g:
      "getOrInsertAlwaysOnTopWindowParticipantVideo p s = Inr (Some p, s)"
      by (simp add: getOrInsertAlwaysOnTopWindowParticipantVideo_def
          getAlwaysOnTopWindowParticipantVideo_def)
    let ?d2 = "d\<lparr>main_video_display := Some ''block''\<rparr>"
    let ?s2 = "set_document ?d2 s"
    from assms(1) disp have sh: "show_alwaysOnTopWindowVideo s = Inr ?s2"
      by (simp add: show_alwaysOnTopWindowVideo_def)
    have o2: "overlay_document_of ?s2 = Some ?d2"
      using assms(1) by (rule overlay_document_of_set_document)
    have at: "attach_video p video ?s2 = set_document (bind_document p video d) s"
      using o2 Some by (simp add: attach_video_def set_document_twice bind_document_def)
    from \<open>getParticipantVideo api p = Some video\<close> g sh at show ?thesis
      by (simp add: participant_step_def bind_result_def)
  qed
qed

lemma bind_document_ready:
  "has_react (bind_document p video d) = has_react d"
  "main_video_display (bind_document p video d) \<noteq> None"
  by (simp_all add: bind_document_def)

text \<open>The whole pass, as a function of the document and the list of participants.\<close>

lemma forEach_participant_step:
  assumes "overlay_document_of s = Some d" "has_react d" "main_video_display d \<noteq> None"
  shows "forEach (participant_step api) ps (c, s) =
     Inr (c + length (filter (has_video api) ps),
          (set_document (route_document api ps d) s)
            \<lparr>effects := effects s @ count_messages api ps c\<rparr>)"
  using assms
proof (induction ps arbitrary: c s d)
  case Nil
  then show ?case by (simp add: set_document_same)
next
  case (Cons p ps)
  show ?case
  proof (cases "getParticipantVideo api p")
    case None
    let ?s1 = "emit (Ipc_send_video_count c) s"
    from None Cons.prems have st: "participant_step api p (c, s) = Inr (c, ?s1)"
      by (simp add: participant_step_ready)
    from Cons.prems have o: "overlay_document_of ?s1 = Some d"
      by (simp add: overlay_document_of_emit)
    from Cons.IH [OF o Cons.prems(2,3), of c] st None show ?thesis
      by (simp add: bind_result_def has_video_def set_document_effects emit_def
          effects_set_document)
  next
    case (Some video)
    let ?d1 = "bind_document p video d"
    let ?s1 = "emit (Ipc_send_video_count (c + 1)) (set_document ?d1 s)"
    from Some Cons.prems have st: "participant_step api p (c, s) = Inr (c + 1, ?s1)"
      by (simp add: participant_step_ready)
    from Cons.prems(1) have o: "overlay_document_of ?s1 = Some ?d1"
      by (simp add: overlay_document_of_emit overlay_document_of_set_document)
    from Cons.prems(2) have r: "has_react ?d1" "main_video_display ?d1 \<noteq> None"
      by (simp_all add: bind_document_ready)
    from Cons.IH [OF o r, of "c + 1"] st Some show ?thesis
      by (simp add: bind_result_def has_video_def set_document_effects emit_def
          effects_set_document set_document_twice)
  qed
qed

lemma onParticipantJoined_ready:
  assumes "overlay_document_of s = Some d" "has_react d" "main_video_display d \<noteq> None"
  shows "onParticipantJoined api s =
     Inr ((set_document (route_document api (participants api) d) s)
            \<lparr>effects := effects s @ count_messages api (participants api) 0\<rparr>)"
  by (simp add: onParticipantJoined_def forEach_participant_step [OF assms] bind_result_def)

lemma play_source_twice: "play_source video (play_source video v) = play_source video v"
  by (simp add: play_source_def)

lemma map_of_bind_document:
  "map_of (participant_videos (bind_document p video d)) q =
     (if q = p
      then Some (play_source video
                  (case map_of (participant_videos d) p of None \<Rightarrow> nextVideo | Some v \<Rightarrow> v))
      else map_of (participant_videos d) q)"
  by (simp add: bind_document_def map_of_update_video split: option.splits)

lemma keys_bind_document:
  "map fst (participant_videos (bind_document p video d)) =
     (case map_of (participant_videos d) p of
        None \<Rightarrow> p # map fst (participant_videos d)
      | Some v \<Rightarrow> map fst (participant_videos d))"
  by (simp add: bind_document_def keys_update_video split: option.splits)

lemma distinct_bind_document:
  "distinct (map fst (participant_videos d))
   \<Longrightarrow> distinct (map fst (participant_videos (bind_document p video d)))"
  by (auto simp: keys_bind_document map_of_eq_None_iff split: option.splits)

lemma distinct_route_document:
  "distinct (map fst (participant_videos d))
   \<Longrightarrow> distinct (map fst (participant_videos (route_document api ps d)))"
  by (induction ps arbitrary: d) (auto simp: distinct_bind_document split: option.splits)

lemma route_document_others:
  "\<not> (q \<in> set ps \<and> has_video api q)
   \<Longrightarrow> map_of (participant_videos (route_document api ps d)) q
       = map_of (participant_videos d) q"
proof (induction ps arbitrary: d)
  case Nil
  then show ?case by simp
next
  case (Cons p ps)
  then show ?case
    by (cases "getParticipantVideo api p") (auto simp: has_video_def map_of_bind_document)
qed

lemma route_document_bound:
  "q \<in> set ps \<Longrightarrow> getParticipantVideo api q = Some video
   \<Longrightarrow> map_of (participant_videos (route_document api ps d)) q
       = Some (play_source video
                (case map_of (participant_videos d) q of None \<Rightarrow> nextVideo | Some v \<Rightarrow> v))"
proof (induction ps arbitrary: d)
  case Nil
  then show ?case by simp
next
  case (Cons p ps)
  let ?d1 = "case getParticipantVideo api p of None \<Rightarrow> d | Some v \<Rightarrow> bind_document p v d"
  have r: "route_document api (p # ps) d = route_document api ps ?d1" by simp
  show ?case
  proof (cases "q \<in> set ps")
    case True
    from Cons.IH [OF True Cons.prems(2), of ?d1]
    have "map_of (participant_videos (route_document api (p # ps) d)) q =
        Some (play_source video
               (case map_of (participant_videos ?d1) q of None \<Rightarrow> nextVideo | Some v \<Rightarrow> v))"
      by (simp only: r)
    moreover have "play_source video
        (case map_of (participant_videos ?d1) q of None \<Rightarrow> nextVideo | Some v \<Rightarrow> v)
        = play_source video
            (case map_of (participant_videos d) q of None \<Rightarrow> nextVideo | Some v \<Rightarrow> v)"
      using Cons.prems(2)
      by (cases "getParticipantVideo api p")
         (auto simp: map_of_bind_document play_source_twice)
    ultimately show ?thesis by simp
  next
    case False
    with Cons.prems(1) have qp: "q = p" by simp
    from False have "map_of (participant_videos (route_document api ps ?d1)) q
        = map_of (participant_videos ?d1) q"
      by (intro route_document_others) simp
    with qp Cons.prems(2) show ?thesis
      by (simp add: map_of_bind_document)
  qed
qed

lemma length_count_messages: "length (count_messages api ps c) = length ps"
  by (induction ps arbitrary: c) (auto split: option.splits)

lemma last_count_messages:
  "ps \<noteq> [] \<Longrightarrow>
     last (count_messages api ps c)
       = Ipc_send_video_count (c + length (filter (has_video api) ps))"
proof (induction ps arbitrary: c)
  case Nil
  then show ?case by simp
next
  case (Cons p ps)
  show ?case
  proof (cases "ps = []")
    case True
    then show ?thesis by (simp add: has_video_def split: option.splits)
  next
    case False
    then have ne: "count_messages api ps n \<noteq> []" for n
      using length_count_messages [of api ps n] by auto
    from Cons.IH [OF False] ne show ?thesis
      by (cases "getParticipantVideo api p") (simp_all add: has_video_def)
  qed
qed

lemma one_element_per_key:
  "distinct (map fst xs) \<Longrightarrow> map_of xs k = Some v
   \<Longrightarrow> length (filter (\<lambda>kv. fst kv = k) xs) = 1"
proof (induction xs)
  case Nil
  then show ?case by simp
next
  case (Cons a xs)
  show ?case
  proof (cases "fst a = k")
    case True
    with Cons.prems(1) have "k \<notin> fst ` set xs" by auto
    then have "filter (\<lambda>kv. fst kv = k) xs = []" by (auto simp: filter_empty_conv)
    with True show ?thesis by simp
  next
    case False
    with Cons show ?thesis by (cases a) auto
  qed
qed

text \<open>
  Claim C9, amended. A pass over an open overlay whose document has the \<^verbatim>\<open>react\<close>
  and \<^verbatim>\<open>video\<close> elements, with at most one overlay element per participant id,
  does not throw. Afterwards every known participant with a video has exactly one
  overlay element: the one it had, or a new muted autoplay one, with the stream
  attached, the transform copied and playback started. All other elements are as they
  were; participants without a video are skipped. A count message is sent at the end of
  every callback, so once per known participant, with or without a video, carrying the
  number of participants bound so far in this pass; the last message of a pass carries
  the total, and a pass over no participant sends none.
\<close>

theorem onParticipantJoined_routes:
  assumes "overlay_document_of s = Some d" and "has_react d"
    and "main_video_display d \<noteq> None"
    and "distinct (map fst (participant_videos d))"
  shows "\<exists>s' d'.
           onParticipantJoined api s = Inr s'
           \<and> overlay_document_of s' = Some d'
           \<and> (\<forall>p video.
                 p \<in> set (participants api) \<and> getParticipantVideo api p = Some video \<longrightarrow>
                   map_of (participant_videos d') p
                     = Some (play_source video
                              (case map_of (participant_videos d) p of
                                 None \<Rightarrow> nextVideo | Some v \<Rightarrow> v))
                   \<and> length (filter (\<lambda>kv. fst kv = p) (participant_videos d')) = 1)
           \<and> (\<forall>p. \<not> (p \<in> set (participants api) \<and> has_video api p) \<longrightarrow>
                 map_of (participant_videos d') p = map_of (participant_videos d) p)
           \<and> effects s' = effects s @ count_messages api (participants api) 0
           \<and> length (count_messages api (participants api) 0) = length (participants api)
           \<and> (participants api \<noteq> [] \<longrightarrow>
                 last (effects s')
                   = Ipc_send_video_count (length (filter (has_video api) (participants api))))"
proof -
  let ?d' = "route_document api (participants api) d"
  let ?s' = "(set_document ?d' s)\<lparr>effects := effects s @ count_messages api (participants api) 0\<rparr>"
  have run: "onParticipantJoined api s = Inr ?s'"
    by (rule onParticipantJoined_ready [OF assms(1-3)])
  have doc: "overlay_document_of ?s' = Some ?d'"
    using overlay_document_of_set_document [OF assms(1), of ?d']
    by (simp add: overlay_document_of_def)
  have dist: "distinct (map fst (participant_videos ?d'))"
    by (rule distinct_route_document [OF assms(4)])
  have bound: "map_of (participant_videos ?d') p
        = Some (play_source video
                 (case map_of (participant_videos d) p of None \<Rightarrow> nextVideo | Some v \<Rightarrow> v))
      \<and> length (filter (\<lambda>kv. fst kv = p) (participant_videos ?d')) = 1"
    if "p \<in> set (participants api)" "getParticipantVideo api p = Some video" for p video
    using route_document_bound [OF that, of d] one_element_per_key [OF dist] by simp
  have others: "map_of (participant_videos ?d') p = map_of (participant_videos d) p"
    if "\<not> (p \<in> set (participants api) \<and> has_video api p)" for p
    using that by (rule route_document_others)
  have eff: "effects ?s' = effects s @ count_messages api (participants api) 0"
    by simp
  have lst: "last (effects ?s')
      = Ipc_send_video_count (length (filter (has_video api) (participants api)))"
    if "participants api \<noteq> []"
  proof -
    from that have "count_messages api (participants api) 0 \<noteq> []"
      using length_count_messages [of api "participants api" 0] by auto
    with last_count_messages [OF that, of api 0] show ?thesis by simp
  qed
  from run doc bound others eff lst length_count_messages [of api "participants api" 0]
  show ?thesis by blast
qed

lemma overlay_ready_document:
  "overlay_document_of overlay_ready = Some ready_document"
  "has_react ready_document"
  "main_video_display ready_document \<noteq> None"
  "distinct (map fst (participant_videos ready_document))"
  by (simp_all add: overlay_document_of_def overlay_ready_def ready_document_def)

theorem onParticipantJoined_routes_witness:
  "overlay_document_of overlay_ready = Some ready_document
   \<and> has_react ready_document
   \<and> main_video_display ready_document \<noteq> None
   \<and> distinct (map fst (participant_videos ready_document))
   \<and> (\<exists>s' d'. onParticipantJoined api_A overlay_ready = Inr s'
         \<and> overlay_document_of s' = Some d'
         \<and> map_of (participant_videos d') ''A''
             = Some \<lparr>ve_muted = True, ve_autoplay = True, ve_srcObject = Some 1,
                     ve_transform = ''scaleX(-1)'', ve_playing = True\<rparr>
         \<and> length (filter (\<lambda>kv. fst kv = ''A'') (participant_videos d')) = 1
         \<and> effects s' = [Ipc_send_video_count 1])"
proof -
  have a: "''A'' \<in> set (participants api_A)"
      "getParticipantVideo api_A ''A'' = Some \<lparr>srcObject = Some 1, transform = ''scaleX(-1)''\<rparr>"
    by (simp_all add: api_A_def video_of_def)
  have c: "count_messages api_A (participants api_A) 0 = [Ipc_send_video_count 1]"
    by (simp add: api_A_def video_of_def)
  have e: "effects overlay_ready = []"
    by (simp add: overlay_ready_def initial_state_def)
  have n: "play_source \<lparr>srcObject = Some 1, transform = ''scaleX(-1)''\<rparr>
             (case map_of (participant_videos ready_document) ''A'' of
                None \<Rightarrow> nextVideo | Some v \<Rightarrow> v)
           = \<lparr>ve_muted = True, ve_autoplay = True, ve_srcObject = Some 1,
              ve_transform = ''scaleX(-1)'', ve_playing = True\<rparr>"
    by (simp add: ready_document_def play_source_def nextVideo_def)
  from onParticipantJoined_routes [OF overlay_ready_document, of api_A]
  obtain s' d' where r: "onParticipantJoined api_A overlay_ready = Inr s'"
      "overlay_document_of s' = Some d'"
      "\<forall>p video.
         p \<in> set (participants api_A) \<and> getParticipantVideo api_A p = Some video \<longrightarrow>
           map_of (participant_videos d') p
             = Some (play_source video
                      (case map_of (participant_videos ready_document) p of
                         None \<Rightarrow> nextVideo | Some v \<Rightarrow> v))
           \<and> length (filter (\<lambda>kv. fst kv = p) (participant_videos d')) = 1"
      "effects s' = effects overlay_ready @ count_messages api_A (participants api_A) 0"
    by blast
  from r(3) a have "map_of (participant_videos d') ''A''
             = Some (play_source \<lparr>srcObject = Some 1, transform = ''scaleX(-1)''\<rparr>
                      (case map_of (participant_videos ready_document) ''A'' of
                         None \<Rightarrow> nextVideo | Some v \<Rightarrow> v))
           \<and> length (filter (\<lambda>kv. fst kv = ''A'') (participant_videos d')) = 1"
    by blast
  with n have m: "map_of (participant_videos d') ''A''
             = Some \<lparr>ve_muted = True, ve_autoplay = True, ve_srcObject = Some 1,
                     ve_transform = ''scaleX(-1)'', ve_playing = True\<rparr>"
      "length (filter (\<lambda>kv. fst kv = ''A'') (participant_videos d')) = 1"
    by simp_all
  from r(4) c e have "effects s' = [Ipc_send_video_count 1]" by simp
  with r(1,2) m overlay_ready_document show ?thesis by blast
qed

text \<open>
  The claim as stated fails with two participants: the count is reported twice in the
  one pass, first as 1 and then as 2.
\<close>

theorem onParticipantJoined_routes_counterexample:
  "onParticipantJoined api_A_B overlay_ready =
     Inr (overlay_ready
           \<lparr>alwaysOnTopWindow :=
              Some \<lparr>document =
                Some \<lparr>has_react = True, main_video_display = Some ''block'',
                      participant_videos =
                        [(''B'', \<lparr>ve_muted = True, ve_autoplay = True, ve_srcObject = Some 2,
                                  ve_transform = ''none'', ve_playing = True\<rparr>),
                         (''A'', \<lparr>ve_muted = True, ve_autoplay = True, ve_srcObject = Some 1,
                                  ve_transform = ''scaleX(-1)'', ve_playing = True\<rparr>)]\<rparr>\<rparr>,
            effects := [Ipc_send_video_count 1, Ipc_send_video_count 2]\<rparr>)"
proof -
  have d: "route_document api_A_B (participants api_A_B) ready_document =
      \<lparr>has_react = True, main_video_display = Some ''block'',
       participant_videos =
         [(''B'', \<lparr>ve_muted = True, ve_autoplay = True, ve_srcObject = Some 2,
                   ve_transform = ''none'', ve_playing = True\<rparr>),
          (''A'', \<lparr>ve_muted = True, ve_autoplay = True, ve_srcObject = Some 1,
                   ve_transform = ''scaleX(-1)'', ve_playing = True\<rparr>)]\<rparr>"
    by (simp add: api_A_B_def video_of_def ready_document_def bind_document_def
        play_source_def nextVideo_def)
  have c: "count_messages api_A_B (participants api_A_B) 0
      = [Ipc_send_video_count 1, Ipc_send_video_count 2]"
    by (simp add: api_A_B_def video_of_def)
  have e: "effects overlay_ready = []"
    by (simp add: overlay_ready_def initial_state_def)
  show ?thesis
    unfolding onParticipantJoined_ready [OF overlay_ready_document(1-3)] d c e
    by (simp add: set_document_def overlay_ready_def)
qed

text \<open>
  Without an overlay the pass throws at the first participant that has a video: the
  getter of the element with id \<^verbatim>\<open>video\<close> gives \<^verbatim>\<open>undefined\<close>.
\<close>

lemma onParticipantJoined_without_overlay:
  "onParticipantJoined api_A constructed_state = Inl TypeError"
  by (simp add: onParticipantJoined_def participant_step_def bind_result_def api_A_def
      video_of_def getOrInsertAlwaysOnTopWindowParticipantVideo_def
      show_alwaysOnTopWindowVideo_def overlay_document_of_def constructed_state_def
      fresh_state_def initial_state_def)

section \<open>Position messages\<close>

lemma position_messages_append:
  "position_messages (a @ b) = position_messages a @ position_messages b"
  by (simp add: position_messages_def)

lemma effects_getOrInsert:
  "getOrInsertAlwaysOnTopWindowParticipantVideo p s = Inr (r, s') \<Longrightarrow> effects s' = effects s"
  by (auto simp: getOrInsertAlwaysOnTopWindowParticipantVideo_def effects_set_document
      split: option.splits if_splits)

lemma effects_show_alwaysOnTopWindowVideo:
  "show_alwaysOnTopWindowVideo s = Inr s' \<Longrightarrow> effects s' = effects s"
  by (auto simp: show_alwaysOnTopWindowVideo_def effects_set_document split: option.splits)

lemma effects_attach_video: "effects (attach_video r video s) = effects s"
  by (simp add: attach_video_def effects_set_document split: option.splits)

lemma participant_step_effects:
  assumes "participant_step api p (c, s) = Inr (c', s')"
  shows "effects s' = effects s @ [Ipc_send_video_count c']"
proof (cases "getParticipantVideo api p")
  case None
  with assms show ?thesis
    by (auto simp: participant_step_def bind_result_def emit_def)
next
  case (Some video)
  with assms obtain r s1 s2 where
      g: "getOrInsertAlwaysOnTopWindowParticipantVideo p s = Inr (Some r, s1)"
      and sh: "show_alwaysOnTopWindowVideo s1 = Inr s2"
      and res: "c' = c + 1" "s' = emit (Ipc_send_video_count (c + 1)) (attach_video r video s2)"
    by (auto simp: participant_step_def bind_result_def split: sum.splits option.splits)
  from effects_getOrInsert [OF g] effects_show_alwaysOnTopWindowVideo [OF sh] res
  show ?thesis by (simp add: emit_def effects_attach_video)
qed

lemma forEach_participant_step_position_messages:
  "forEach (participant_step api) ps (c, s) = Inr (c', s')
   \<Longrightarrow> position_messages (effects s') = position_messages (effects s)"
proof (induction ps arbitrary: c s)
  case Nil
  then show ?case by simp
next
  case (Cons p ps)
  from Cons.prems obtain c1 s1 where
      st: "participant_step api p (c, s) = Inr (c1, s1)"
      and rest: "forEach (participant_step api) ps (c1, s1) = Inr (c', s')"
    by (auto simp: bind_result_def split: sum.splits)
  from participant_step_effects [OF st]
  have "position_messages (effects s1) = position_messages (effects s)"
    by (simp add: position_messages_def)
  with Cons.IH [OF rest] show ?case by simp
qed

text \<open>
  Claim C6, amended. A position message is sent by the constructor (once, with the
  stored position) and by the position setter when both coordinates are numbers. The
  setter is invoked by a close, and only by a close that finds a live browser-window
  handle: such a close sends exactly one position message, a close without a live
  handle sends none. A drag frame (\<open>move\<close>), an open, joining a conference and a
  routing pass send none.
\<close>

theorem position_message_sources:
  "(\<exists>s0. new_AlwaysOnTop True storage wins = Inr s0
        \<and> position_messages (effects s0) =
            [Ipc_send_position (getNumberFromLocalStorage storage ''jitsi-always-on-top-x'')
                               (getNumberFromLocalStorage storage ''jitsi-always-on-top-y'')])
   \<and> position_messages (effects (set_position (x, y) s)) =
       position_messages (effects s)
       @ (if js_typeof x = ''number'' \<and> js_typeof y = ''number''
          then [Ipc_send_position x y] else [])
   \<and> (\<exists>s'. closeAlwaysOnTopWindow s = Inr s'
        \<and> position_messages (effects s') =
            position_messages (effects s)
            @ (case live_handle s of
                 None \<Rightarrow> []
               | Some (h, px, py) \<Rightarrow> [Ipc_send_position (JNum (Whole px)) (JNum (Whole py))]))
   \<and> (\<forall>s'. move mx my initialSize s = Inr s'
          \<longrightarrow> position_messages (effects s') = position_messages (effects s))
   \<and> position_messages (effects (openAlwaysOnTopWindow opened s))
       = position_messages (effects s)
   \<and> position_messages (effects (onConferenceJoined s)) = position_messages (effects s)
   \<and> (\<forall>s'. onParticipantJoined api s = Inr s'
          \<longrightarrow> position_messages (effects s') = position_messages (effects s))"
proof -
  have ctor: "\<exists>s0. new_AlwaysOnTop True storage wins = Inr s0
        \<and> position_messages (effects s0) =
            [Ipc_send_position (getNumberFromLocalStorage storage ''jitsi-always-on-top-x'')
                               (getNumberFromLocalStorage storage ''jitsi-always-on-top-y'')]"
    by (simp add: new_AlwaysOnTop_def Let_def sendPosition_def emit_def initial_state_def
        get_position_def position_messages_def)
  have setter: "position_messages (effects (set_position (x, y) s)) =
       position_messages (effects s)
       @ (if js_typeof x = ''number'' \<and> js_typeof y = ''number''
          then [Ipc_send_position x y] else [])"
    by (simp add: effects_set_position position_messages_def)
  have close: "\<exists>s'. closeAlwaysOnTopWindow s = Inr s'
        \<and> position_messages (effects s') =
            position_messages (effects s)
            @ (case live_handle s of
                 None \<Rightarrow> []
               | Some (h, px, py) \<Rightarrow> [Ipc_send_position (JNum (Whole px)) (JNum (Whole py))])"
    by (subst closeAlwaysOnTopWindow_result, rule exI, rule conjI, rule refl)
       (simp add: position_messages_def split: option.splits)
  have drag: "position_messages (effects s') = position_messages (effects s)"
    if "move mx my initialSize s = Inr s'" for s'
    using that
    by (auto simp: move_def setBounds_def emit_def position_messages_def split: option.splits)
  have opn: "position_messages (effects (openAlwaysOnTopWindow opened s))
       = position_messages (effects s)"
    by (simp add: openAlwaysOnTopWindow_def emit_def position_messages_def split: option.splits)
  have joined: "position_messages (effects (onConferenceJoined s)) = position_messages (effects s)"
    by (simp add: onConferenceJoined_def)
  have pass: "position_messages (effects s') = position_messages (effects s)"
    if "onParticipantJoined api s = Inr s'" for s'
  proof -
    from that obtain c' where
      "forEach (participant_step api) (participants api) (0, s) = Inr (c', s')"
      by (auto simp: onParticipantJoined_def bind_result_def split: sum.splits)
    then show ?thesis by (rule forEach_participant_step_position_messages)
  qed
  from ctor setter close drag opn joined pass show ?thesis by blast
qed

lemma move_overlay_at_120_340:
  "move 5 6 (320, 180) overlay_at_120_340 =
     Inr (overlay_at_120_340
           \<lparr>browser_windows := [7 \<mapsto> (5, 6)],
            effects := [BrowserWindow_setBounds 7 5 6 320 180]\<rparr>)"
  by (simp add: move_def setBounds_def emit_def overlay_at_120_340_def initial_state_def)

theorem position_message_sources_witness:
  "move 5 6 (320, 180) overlay_at_120_340 =
     Inr (overlay_at_120_340
           \<lparr>browser_windows := [7 \<mapsto> (5, 6)],
            effects := [BrowserWindow_setBounds 7 5 6 320 180]\<rparr>)
   \<and> position_messages
        (effects (overlay_at_120_340
           \<lparr>browser_windows := [7 \<mapsto> (5, 6)],
            effects := [BrowserWindow_setBounds 7 5 6 320 180]\<rparr>))
       = position_messages (effects overlay_at_120_340)
   \<and> position_messages (effects overlay_at_120_340) = []
   \<and> (\<exists>s'. closeAlwaysOnTopWindow overlay_at_120_340 = Inr s'
          \<and> position_messages (effects s')
              = [Ipc_send_position (JNum (Whole 120)) (JNum (Whole 340))])
   \<and> (\<exists>s'. onParticipantJoined api_A overlay_ready = Inr s'
          \<and> position_messages (effects s') = [])"
proof -
  note t = position_message_sources
    [of Map.empty Map.empty JUndefined JUndefined overlay_at_120_340 5 6 "(320, 180)"]
  have e: "position_messages (effects overlay_at_120_340) = []"
    by (simp add: overlay_at_120_340_def initial_state_def position_messages_def)
  have l: "live_handle overlay_at_120_340 = Some (7, 120, 340)"
    by (simp add: live_handle_def overlay_at_120_340_def initial_state_def)
  from t move_overlay_at_120_340
  have 1: "position_messages
        (effects (overlay_at_120_340
           \<lparr>browser_windows := [7 \<mapsto> (5, 6)],
            effects := [BrowserWindow_setBounds 7 5 6 320 180]\<rparr>))
       = position_messages (effects overlay_at_120_340)"
    by blast
  from t obtain s' where "closeAlwaysOnTopWindow overlay_at_120_340 = Inr s'"
      "position_messages (effects s') =
         position_messages (effects overlay_at_120_340)
         @ (case live_handle overlay_at_120_340 of
              None \<Rightarrow> []
            | Some (h, px, py) \<Rightarrow> [Ipc_send_position (JNum (Whole px)) (JNum (Whole py))])"
    by blast
  with e l have 2: "\<exists>s'. closeAlwaysOnTopWindow overlay_at_120_340 = Inr s'
          \<and> position_messages (effects s')
              = [Ipc_send_position (JNum (Whole 120)) (JNum (Whole 340))]"
    by simp
  obtain sr where sr: "onParticipantJoined api_A overlay_ready = Inr sr"
    using onParticipantJoined_ready [OF overlay_ready_document(1-3)] by blast
  have er: "position_messages (effects overlay_ready) = []"
    by (simp add: overlay_ready_def initial_state_def position_messages_def)
  from position_message_sources
    [of Map.empty Map.empty JUndefined JUndefined overlay_ready 5 6 "(320, 180)" None api_A] sr
  have "position_messages (effects sr) = position_messages (effects overlay_ready)"
    by blast
  with sr er have 3: "\<exists>s'. onParticipantJoined api_A overlay_ready = Inr s'
          \<and> position_messages (effects s') = []"
    by simp
  from move_overlay_at_120_340 1 e 2 3 show ?thesis by blast
qed

text \<open>
  The claim as stated fails in two ways. The constructor sends a position message
  (here with both coordinates \<^verbatim>\<open>undefined\<close>) although no close has happened; and the
  close of an overlay that was opened but whose browser window was never announced
  sends no position message.
\<close>

theorem position_message_sources_counterexample:
  "new_AlwaysOnTop True Map.empty Map.empty = Inr constructed_state
   \<and> position_messages (effects constructed_state) = [Ipc_send_position JUndefined JUndefined]
   \<and> alwaysOnTopWindow joined_and_blurred = Some \<lparr>document = None\<rparr>
   \<and> closeAlwaysOnTopWindow joined_and_blurred =
       Inr (joined_state
             \<lparr>api_listeners :=
                api_listeners joined_state @ [(''largeVideoChanged'', H_updateLargeVideoSrc)],
              effects :=
                [Ipc_send_position JUndefined JUndefined, Window_open [] ''AlwaysOnTop'',
                 Ipc_send_should_close]\<rparr>)"
  by (simp add: new_AlwaysOnTop_empty closeAlwaysOnTopWindow_def bind_result_def emit_def
      joined_and_blurred_def joined_state_def openAlwaysOnTopWindow_def onConferenceJoined_def
      constructed_state_def fresh_state_def initial_state_def add_listener_def
      remove_listener_def position_messages_def)

end
